theory Spec2Isabelle
  imports Main "HOL-Library.Word" "HOL-Library.Multiset"
begin

unbundle bit_operations_syntax

section \<open>Go values as reflection sees them\<close>

text \<open>
  The assignment engine works on \<^verbatim>\<open>reflect.Value\<close>s. The model keeps what the engine
  inspects: the kind, the static type (to make zero values and to compare types), nil-ness,
  the fields of a struct with their tags, and the contents of maps, slices and arrays.
  A pointer owns its pointee (value semantics); the engine never relies on aliasing
  between target and source. Types are finite trees, so recursive struct types are outside
  the model.
\<close>

datatype kind =
    KInvalid | KBool
  | KInt | KInt8 | KInt16 | KInt32 | KInt64
  | KUint | KUint8 | KUint16 | KUint32 | KUint64 | KUintptr
  | KFloat32 | KFloat64 | KComplex64 | KComplex128
  | KArray | KChan | KFunc | KInterface | KMap | KPointer | KSlice | KString | KStruct
  | KUnsafePointer

text \<open>The numeric order of \<^verbatim>\<open>reflect.Kind\<close>, which \<^verbatim>\<open>getKind\<close> compares.\<close>

fun kindNo :: "kind \<Rightarrow> nat" where
  "kindNo KInvalid = 0" | "kindNo KBool = 1"
| "kindNo KInt = 2" | "kindNo KInt8 = 3" | "kindNo KInt16 = 4" | "kindNo KInt32 = 5"
| "kindNo KInt64 = 6"
| "kindNo KUint = 7" | "kindNo KUint8 = 8" | "kindNo KUint16 = 9" | "kindNo KUint32 = 10"
| "kindNo KUint64 = 11" | "kindNo KUintptr = 12"
| "kindNo KFloat32 = 13" | "kindNo KFloat64 = 14"
| "kindNo KComplex64 = 15" | "kindNo KComplex128 = 16"
| "kindNo KArray = 17" | "kindNo KChan = 18" | "kindNo KFunc = 19" | "kindNo KInterface = 20"
| "kindNo KMap = 21" | "kindNo KPointer = 22" | "kindNo KSlice = 23" | "kindNo KString = 24"
| "kindNo KStruct = 25" | "kindNo KUnsafePointer = 26"

text \<open>A struct field declaration: its name, its tag (key/value pairs) and whether it is
  embedded.\<close>

record sfield =
  Name :: string
  Tag :: "(string \<times> string) list"
  Anonymous :: bool

datatype gtype =
    TBool
  | TInt kind
  | TUint kind
  | TFloat kind
  | TString
  | TJsonNumber
  | TInterface
  | TStruct string "(sfield \<times> gtype) list"
  | TMap gtype gtype
  | TPtr gtype
  | TSlice gtype
  | TArray nat gtype
  | TFunc string
  | TOther kind string

text \<open>
  Integers carry the 64-bit value that \<^verbatim>\<open>Value.Int()\<close> / \<^verbatim>\<open>Value.Uint()\<close> return, floats
  the IEEE-754 binary64 pattern of \<^verbatim>\<open>Value.Float()\<close>. A map, pointer, slice, func or
  interface is nil when its payload is \<open>None\<close>. \<open>VJsonNumber\<close> is \<^verbatim>\<open>json.Number\<close>
  (kind String). \<open>VOther\<close> stands for complex numbers, channels and unsafe pointers;
  its flag says whether it is the zero value.
\<close>

datatype val =
    VBool bool
  | VInt kind "64 word"
  | VUint kind "64 word"
  | VFloat kind "64 word"
  | VString string
  | VJsonNumber string
  | VInterface "val option"
  | VStruct string "(sfield \<times> val) list"
  | VMap gtype gtype "(val \<times> val) list option"
  | VPtr gtype "val option"
  | VSlice gtype "val list option"
  | VArray gtype "val list"
  | VFunc string "nat option"
  | VOther kind string bool

primrec kindOfType :: "gtype \<Rightarrow> kind" where
  "kindOfType TBool = KBool"
| "kindOfType (TInt k) = k"
| "kindOfType (TUint k) = k"
| "kindOfType (TFloat k) = k"
| "kindOfType TString = KString"
| "kindOfType TJsonNumber = KString"
| "kindOfType TInterface = KInterface"
| "kindOfType (TStruct n fs) = KStruct"
| "kindOfType (TMap k e) = KMap"
| "kindOfType (TPtr t) = KPointer"
| "kindOfType (TSlice t) = KSlice"
| "kindOfType (TArray n t) = KArray"
| "kindOfType (TFunc n) = KFunc"
| "kindOfType (TOther k n) = k"

primrec typeOf :: "val \<Rightarrow> gtype" where
  "typeOf (VBool b) = TBool"
| "typeOf (VInt k w) = TInt k"
| "typeOf (VUint k w) = TUint k"
| "typeOf (VFloat k w) = TFloat k"
| "typeOf (VString s) = TString"
| "typeOf (VJsonNumber s) = TJsonNumber"
| "typeOf (VInterface x) = TInterface"
| "typeOf (VStruct n fs) = TStruct n (map (map_prod id typeOf) fs)"
| "typeOf (VMap k e m) = TMap k e"
| "typeOf (VPtr t p) = TPtr t"
| "typeOf (VSlice t xs) = TSlice t"
| "typeOf (VArray t xs) = TArray (length xs) t"
| "typeOf (VFunc n f) = TFunc n"
| "typeOf (VOther k n z) = TOther k n"

definition kindOf :: "val \<Rightarrow> kind" where
  "kindOf v = kindOfType (typeOf v)"

text \<open>\<^verbatim>\<open>reflect.Zero(t)\<close>, also the pointee of \<^verbatim>\<open>reflect.New(t)\<close>.\<close>

primrec zero :: "gtype \<Rightarrow> val" where
  "zero TBool = VBool False"
| "zero (TInt k) = VInt k 0"
| "zero (TUint k) = VUint k 0"
| "zero (TFloat k) = VFloat k 0"
| "zero TString = VString []"
| "zero TJsonNumber = VJsonNumber []"
| "zero TInterface = VInterface None"
| "zero (TStruct n fs) = VStruct n (map (map_prod id zero) fs)"
| "zero (TMap k e) = VMap k e None"
| "zero (TPtr t) = VPtr t None"
| "zero (TSlice t) = VSlice t None"
| "zero (TArray n t) = VArray t (replicate n (zero t))"
| "zero (TFunc n) = VFunc n None"
| "zero (TOther k n) = VOther k n True"

text \<open>A \<^verbatim>\<open>reflect.Value\<close> that may be the zero Value (\<open>None\<close>, kind Invalid). The same
  type stands for a source of type \<^verbatim>\<open>any\<close>: \<open>None\<close> is the nil interface.\<close>

type_synonym rvalue = "val option"

definition rkind :: "rvalue \<Rightarrow> kind" where
  "rkind v = (case v of None \<Rightarrow> KInvalid | Some x \<Rightarrow> kindOf x)"

text \<open>\<^verbatim>\<open>reflect.Indirect\<close>: a pointer is replaced by its pointee, the zero Value when it is
  nil; anything else is returned as it is.\<close>

definition indirect :: "rvalue \<Rightarrow> rvalue" where
  "indirect v = (case v of Some (VPtr t p) \<Rightarrow> p | _ \<Rightarrow> v)"

text \<open>\<^verbatim>\<open>Value.Interface()\<close> followed by \<^verbatim>\<open>reflect.ValueOf\<close>: the dynamic value of an
  interface-kinded Value, the value itself otherwise.\<close>

definition toInterface :: "val \<Rightarrow> rvalue" where
  "toInterface v = (case v of VInterface x \<Rightarrow> x | _ \<Rightarrow> Some v)"

text \<open>Storing a value into a slot of static type \<open>t\<close>: an interface slot boxes it.\<close>

definition box :: "gtype \<Rightarrow> val \<Rightarrow> val" where
  "box t v = (if t = TInterface then VInterface (toInterface v) else v)"

text \<open>What a call can do besides returning: panic (a run-time panic of the reflect
  package), or exhaust the recursion budget of the model.\<close>

datatype 'a outcome = Returns 'a | Panics | OutOfFuel

definition bindO :: "'a outcome \<Rightarrow> ('a \<Rightarrow> 'b outcome) \<Rightarrow> 'b outcome" where
  "bindO m f = (case m of Returns x \<Rightarrow> f x | Panics \<Rightarrow> Panics | OutOfFuel \<Rightarrow> OutOfFuel)"

section \<open>Kind predicates\<close>

definition isUint :: "kind \<Rightarrow> bool" where
  "isUint k = (k = KUint \<or> k = KUint8 \<or> k = KUint16 \<or> k = KUint32 \<or> k = KUint64)"

definition isInt :: "kind \<Rightarrow> bool" where
  "isInt k = (k = KInt \<or> k = KInt8 \<or> k = KInt16 \<or> k = KInt32 \<or> k = KInt64)"

definition isFloat :: "kind \<Rightarrow> bool" where
  "isFloat k = (k = KFloat32 \<or> k = KFloat64)"

definition isBool :: "kind \<Rightarrow> bool" where
  "isBool k = (k = KBool)"

definition isString :: "kind \<Rightarrow> bool" where
  "isString k = (k = KString)"

definition isMap :: "kind \<Rightarrow> bool" where
  "isMap k = (k = KMap)"

definition isStruct :: "kind \<Rightarrow> bool" where
  "isStruct k = (k = KStruct)"

definition isArraySlice :: "kind \<Rightarrow> bool" where
  "isArraySlice k = (k = KArray \<or> k = KSlice)"

definition isPtrAble :: "kind \<Rightarrow> bool" where
  "isPtrAble k = (k = KChan \<or> k = KFunc \<or> k = KMap \<or> k = KPointer \<or> k = KUnsafePointer
     \<or> k = KInterface \<or> k = KSlice)"

text \<open>\<^verbatim>\<open>getKind\<close> of the first variant folds the sized kinds into one representative.\<close>

definition getKind :: "kind \<Rightarrow> kind" where
  "getKind k =
     (if kindNo KInt \<le> kindNo k \<and> kindNo k \<le> kindNo KInt64 then KInt
      else if kindNo KUint \<le> kindNo k \<and> kindNo k \<le> kindNo KUint64 then KUint
      else if kindNo KFloat32 \<le> kindNo k \<and> kindNo k \<le> kindNo KFloat64 then KFloat32
      else k)"

section \<open>Configuration, metadata and errors\<close>

record Metadata =
  Keys :: "string list"
  Unused :: "string list"
  Unset :: "string list"

text \<open>The \<^verbatim>\<open>Metadata\<close> pointer of the configuration is threaded as state: \<open>None\<close> is the
  nil pointer (nothing is tracked).\<close>

type_synonym meta = "Metadata option"

record AssignConfig =
  WeaklyTypedInput :: bool
  TagName :: string
  IncludeIgnoreFields :: bool
  Converter :: "string \<Rightarrow> string"
  SkipKeys :: "string list"
  SkipSameValues :: bool

text \<open>The second variant of the engine caches the skip keys in a set when the assigner is
  built (\<^verbatim>\<open>newAssigner\<close>); the first variant has no such field and scans \<open>SkipKeys\<close>.\<close>

record assigner =
  config :: AssignConfig
  skipKeysCache :: "string set"

definition newAssigner :: "AssignConfig \<Rightarrow> assigner" where
  "newAssigner c = \<lparr>config = c, skipKeysCache = set (SkipKeys c)\<rparr>"

text \<open>The messages the engine builds with \<^verbatim>\<open>fmt.Errorf\<close>, by template; the first
  argument is the path the message names.\<close>

datatype msg =
    MsgTargetNotPointer
  | MsgTargetNotAddressable
  | MsgUnsupportedType string kind
  | MsgExpectedType string
  | MsgUnconvertible string
  | MsgOverflowsUint string
  | MsgCannotParse string string
  | MsgJsonNumber string
  | MsgNaNOrInf string
  | MsgExpectedMap string kind
  | MsgNeedsStringKeys string kind
  | MsgMustBeArrayOrSlice string kind
  | MsgLength string nat nat
  | MsgMapValueType
  | MsgMapKey string

text \<open>A Go \<^verbatim>\<open>error\<close>: one formatted message, or the aggregate \<^verbatim>\<open>*Error\<close> with its list
  \<^verbatim>\<open>Errors\<close>.\<close>

datatype error = ErrorMsg msg | Error "msg list"

text \<open>
  Modelled from the spec: \<^verbatim>\<open>appendErrors\<close> and the \<^verbatim>\<open>Error\<close> type are declared in a file
  that is not part of the sources at hand. The specification says that failures of
  children are "accumulated into a list" and that the parent "returns an aggregate error
  (a list of per-path messages)": a child's aggregate contributes its messages, any other
  error its own message, at the end of the list.
\<close>

definition appendErrors :: "msg list \<Rightarrow> error \<Rightarrow> msg list" where
  "appendErrors errors e = (case e of Error ms \<Rightarrow> errors @ ms | ErrorMsg m \<Rightarrow> errors @ [m])"

text \<open>One flattened struct field (\<^verbatim>\<open>fieldInfo\<close>). \<open>fieldVal\<close> is the value of the slot when
  the struct was flattened; \<open>fieldPath\<close> locates the slot from the struct that was
  flattened (field indices, going through embedded structs and embedded pointers), and is
  \<open>None\<close> for a slot of a temporary that is not part of that struct.\<close>

record fieldInfo =
  field :: sfield
  fieldVal :: val
  fieldPath :: "nat list option"
  fieldCanSet :: bool
  displayName :: string
  actualName :: string
  omitempty :: bool

datatype variant = V1 | V2

text \<open>
  What the engine takes from the Go run time and its standard library, as parameters:
  the size of \<^verbatim>\<open>int\<close>, the \<^verbatim>\<open>strconv\<close> parsers and formatters (\<open>None\<close> when they return an
  error), the conversions between integers and floats, \<^verbatim>\<open>reflect.DeepEqual\<close>,
  \<^verbatim>\<open>fmt.Sprintf("%v")\<close>, \<^verbatim>\<open>Value.String()\<close>, and the order in which Go happens to range over
  a map. \<open>floatToInt64\<close> and \<open>floatToUint64\<close> are consulted only for a float whose integer
  part the result type cannot represent, where the language leaves the result to the
  implementation. The order of a \<^verbatim>\<open>range\<close> is given as a rank for every entry of the map
  at hand (\<open>keyRank\<close> for \<^verbatim>\<open>MapKeys()\<close>, \<open>fieldRank\<close> for the flattened field map,
  \<open>nameRank\<close> for a set of names): the entries are visited by increasing rank.
  \<open>toLowerCamel\<close> is the default name converter, defined outside the sources at hand.
  \<open>variant\<close> selects which of the two variants of the engine is run, where they differ.
\<close>

record env =
  variant :: variant
  wordSize :: nat
  parseInt :: "string \<Rightarrow> nat \<Rightarrow> 64 word option"
  parseUint :: "string \<Rightarrow> nat \<Rightarrow> 64 word option"
  parseFloat :: "string \<Rightarrow> nat \<Rightarrow> 64 word option"
  formatInt :: "64 word \<Rightarrow> string"
  formatUint :: "64 word \<Rightarrow> string"
  formatFloat :: "64 word \<Rightarrow> string"
  floatToInt64 :: "64 word \<Rightarrow> 64 word"
  floatToUint64 :: "64 word \<Rightarrow> 64 word"
  int64ToFloat :: "64 word \<Rightarrow> 64 word"
  uint64ToFloat :: "64 word \<Rightarrow> 64 word"
  float32Round :: "64 word \<Rightarrow> 64 word"
  jsonInt64 :: "string \<Rightarrow> 64 word option"
  jsonFloat64 :: "string \<Rightarrow> 64 word option"
  sprintv :: "val \<Rightarrow> string"
  valueString :: "val \<Rightarrow> string"
  deepEqual :: "val \<Rightarrow> rvalue \<Rightarrow> bool"
  keyRank :: "(val \<times> val) list \<Rightarrow> val \<Rightarrow> nat"
  fieldRank :: "fieldInfo list \<Rightarrow> fieldInfo \<Rightarrow> nat"
  nameRank :: "string list \<Rightarrow> string \<Rightarrow> nat"
  toLowerCamel :: "string \<Rightarrow> string"

text \<open>Ranging over a map visits each of its entries once, in the order of the ranks:
  \<^verbatim>\<open>MapKeys()\<close> on the entries of a map, \<^verbatim>\<open>range\<close> over the flattened fields, and \<^verbatim>\<open>range\<close>
  over a set of names. Entries of equal rank keep the order of the list.\<close>

definition mapKeys :: "env \<Rightarrow> (val \<times> val) list \<Rightarrow> val list" where
  "mapKeys env es = sort_key (keyRank env es) (map fst es)"

definition rangeFields :: "env \<Rightarrow> fieldInfo list \<Rightarrow> fieldInfo list" where
  "rangeFields env fs = sort_key (fieldRank env fs) fs"

definition rangeNames :: "env \<Rightarrow> string list \<Rightarrow> string list" where
  "rangeNames env ns = sort_key (nameRank env ns) ns"

text \<open>The package-level assigner used to coerce map keys: weak typing, no metadata.\<close>

definition weakAssigner :: "env \<Rightarrow> assigner" where
  "weakAssigner env = newAssigner
     \<lparr>WeaklyTypedInput = True, TagName = ''json'', IncludeIgnoreFields = False,
      Converter = toLowerCamel env, SkipKeys = [], SkipSameValues = False\<rparr>"

definition defaultAssigner :: "env \<Rightarrow> assigner" where
  "defaultAssigner env = newAssigner
     \<lparr>WeaklyTypedInput = False, TagName = ''json'', IncludeIgnoreFields = False,
      Converter = toLowerCamel env, SkipKeys = [], SkipSameValues = False\<rparr>"

section \<open>Reading and writing scalars\<close>

definition bitsOf :: "env \<Rightarrow> kind \<Rightarrow> nat" where
  "bitsOf env k =
     (if k = KInt8 \<or> k = KUint8 then 8
      else if k = KInt16 \<or> k = KUint16 then 16
      else if k = KInt32 \<or> k = KUint32 \<or> k = KFloat32 then 32
      else if k = KInt \<or> k = KUint \<or> k = KUintptr then wordSize env
      else 64)"

text \<open>The setters of \<^verbatim>\<open>reflect.Value\<close> panic on a value of another kind; an integer is
  cut to the width of the target.\<close>

definition setBool :: "val \<Rightarrow> bool \<Rightarrow> val outcome" where
  "setBool tv b = (case tv of VBool x \<Rightarrow> Returns (VBool b) | _ \<Rightarrow> Panics)"

definition setString :: "val \<Rightarrow> string \<Rightarrow> val outcome" where
  "setString tv s = (case tv of VString x \<Rightarrow> Returns (VString s)
     | VJsonNumber x \<Rightarrow> Returns (VJsonNumber s) | _ \<Rightarrow> Panics)"

definition setInt :: "env \<Rightarrow> val \<Rightarrow> 64 word \<Rightarrow> val outcome" where
  "setInt env tv x = (case tv of
       VInt k w \<Rightarrow> Returns (VInt k (signed_take_bit (bitsOf env k - 1) x))
     | _ \<Rightarrow> Panics)"

definition setUint :: "env \<Rightarrow> val \<Rightarrow> 64 word \<Rightarrow> val outcome" where
  "setUint env tv x = (case tv of
       VUint k w \<Rightarrow> Returns (VUint k (take_bit (bitsOf env k) x))
     | _ \<Rightarrow> Panics)"

definition setFloat :: "env \<Rightarrow> val \<Rightarrow> 64 word \<Rightarrow> val outcome" where
  "setFloat env tv f = (case tv of
       VFloat k w \<Rightarrow> Returns (VFloat k (if k = KFloat32 then float32Round env f else f))
     | _ \<Rightarrow> Panics)"

text \<open>The getters; each is used only after the kind has been tested.\<close>

definition boolOf :: "val \<Rightarrow> bool" where
  "boolOf v = (case v of VBool b \<Rightarrow> b | _ \<Rightarrow> False)"

definition wordOf :: "val \<Rightarrow> 64 word" where
  "wordOf v = (case v of VInt k w \<Rightarrow> w | VUint k w \<Rightarrow> w | VFloat k w \<Rightarrow> w | _ \<Rightarrow> 0)"

definition strOf :: "val \<Rightarrow> string" where
  "strOf v = (case v of VString s \<Rightarrow> s | VJsonNumber s \<Rightarrow> s | _ \<Rightarrow> [])"

text \<open>Comparisons of a float64, on its bit pattern: NaN has all exponent bits set and a
  non-zero mantissa; both zeros compare equal to 0; \<^verbatim>\<open>f < 0\<close> holds for a negative number
  that is neither a zero nor a NaN.\<close>

definition floatIsNaN :: "64 word \<Rightarrow> bool" where
  "floatIsNaN f = (take_bit 63 f > 0x7FF0000000000000)"

definition floatIsInf :: "64 word \<Rightarrow> bool" where
  "floatIsInf f = (take_bit 63 f = 0x7FF0000000000000)"

definition floatIsZero :: "64 word \<Rightarrow> bool" where
  "floatIsZero f = (take_bit 63 f = 0)"

definition floatNegative :: "64 word \<Rightarrow> bool" where
  "floatNegative f = (bit f 63 \<and> \<not> floatIsZero f \<and> \<not> floatIsNaN f)"

text \<open>
  The conversions \<^verbatim>\<open>uint64(f)\<close> and \<^verbatim>\<open>int64(f)\<close> of a float64. Go discards the fraction;
  when the result type can represent the integer part, that is the result, and otherwise
  (a NaN, an infinity, an integer part out of range) the result is whatever the
  implementation yields. \<open>floatIntPart\<close> is the integer part of the absolute value of a
  float below \<open>2 ^ 64\<close> in magnitude, read off its exponent (11 bits, biased by 1023) and
  its mantissa (52 bits, with the hidden bit for a normal number); it is \<open>None\<close> for a
  larger float, an infinity and a NaN.
\<close>

definition floatExponent :: "64 word \<Rightarrow> nat" where
  "floatExponent f = unat (take_bit 11 (drop_bit 52 f))"

definition floatIntPart :: "64 word \<Rightarrow> 64 word option" where
  "floatIntPart f =
     (let e = floatExponent f; m = take_bit 52 f OR push_bit 52 1 in
      if e \<ge> 1087 then None
      else if e = 0 then Some 0
      else if e \<ge> 1075 then Some (push_bit (e - 1075) m)
      else Some (drop_bit (1075 - e) m))"

definition uint64OfFloat :: "env \<Rightarrow> 64 word \<Rightarrow> 64 word" where
  "uint64OfFloat env f = (case floatIntPart f of
       Some n \<Rightarrow> if \<not> bit f 63 \<or> n = 0 then n else floatToUint64 env f
     | None \<Rightarrow> floatToUint64 env f)"

definition int64OfFloat :: "env \<Rightarrow> 64 word \<Rightarrow> 64 word" where
  "int64OfFloat env f = (case floatIntPart f of
       Some n \<Rightarrow> if \<not> bit f 63 \<and> n < push_bit 63 1 then n
                else if bit f 63 \<and> n \<le> push_bit 63 1 then - n
                else floatToInt64 env f
     | None \<Rightarrow> floatToInt64 env f)"

definition isJsonNumber :: "gtype \<Rightarrow> bool" where
  "isJsonNumber t = (t = TJsonNumber)"

text \<open>\<^verbatim>\<open>strconv.ParseBool\<close>.\<close>

definition parseBool :: "string \<Rightarrow> bool option" where
  "parseBool s =
     (if s \<in> set [''1'', ''t'', ''T'', ''TRUE'', ''true'', ''True''] then Some True
      else if s \<in> set [''0'', ''f'', ''F'', ''FALSE'', ''false'', ''False''] then Some False
      else None)"

section \<open>Scalar targets\<close>

text \<open>
  The scalar handlers of the two variants test the same conditions in the same order (a
  \<^verbatim>\<open>switch\<close> over \<^verbatim>\<open>getKind\<close> in the first, a chain of \<^verbatim>\<open>if\<close>s over \<^verbatim>\<open>isInt\<close>, \<^verbatim>\<open>isUint\<close>,
  \<^verbatim>\<open>isFloat\<close> in the second); they differ where \<open>variant\<close> is consulted. They return
  the new content of the target and the error, and do not touch the metadata.
\<close>

type_synonym sret = "(val \<times> error option) outcome"

definition ok :: "val outcome \<Rightarrow> sret" where
  "ok m = bindO m (\<lambda>v. Returns (v, None))"

definition fails :: "val \<Rightarrow> msg \<Rightarrow> sret" where
  "fails tv m = Returns (tv, Some (ErrorMsg m))"

definition assignUint :: "env \<Rightarrow> assigner \<Rightarrow> val \<Rightarrow> string \<Rightarrow> rvalue \<Rightarrow> sret" where
  "assignUint env a targetVal targetKey source =
     (case indirect source of
        None \<Rightarrow> Panics
      | Some sourceVal \<Rightarrow>
         (let sourceKind = kindOf sourceVal; sourceType = typeOf sourceVal;
              weak = WeaklyTypedInput (config a) in
          if isInt sourceKind then
            (let i = wordOf sourceVal in
             if i <s 0 \<and> \<not> weak then fails targetVal (MsgOverflowsUint targetKey)
             else ok (setUint env targetVal i))
          else if isUint sourceKind then ok (setUint env targetVal (wordOf sourceVal))
          else if isFloat sourceKind then
            (let f = wordOf sourceVal in
             if floatNegative f \<and> \<not> weak then fails targetVal (MsgOverflowsUint targetKey)
             else ok (setUint env targetVal (uint64OfFloat env f)))
          else if weak \<and> isBool sourceKind then
            (if boolOf sourceVal then ok (setUint env targetVal 1)
             else ok (setUint env targetVal 0))
          else if weak \<and> isString sourceKind then
            (let str = strOf sourceVal; str = (if str = [] then ''0'' else str) in
             case parseUint env str (bitsOf env (kindOf targetVal)) of
               Some i \<Rightarrow> ok (setUint env targetVal i)
             | None \<Rightarrow> fails targetVal (MsgCannotParse targetKey ''uint''))
          else if isJsonNumber sourceType then
            (case parseUint env (strOf sourceVal) 64 of
               None \<Rightarrow> fails targetVal (MsgJsonNumber targetKey)
             | Some i \<Rightarrow> ok (setUint env targetVal i))
          else fails targetVal (MsgUnconvertible targetKey)))"

definition seqElems :: "val \<Rightarrow> val list" where
  "seqElems v = (case v of VSlice t (Some xs) \<Rightarrow> xs | VArray t xs \<Rightarrow> xs | _ \<Rightarrow> [])"

definition elemType :: "val \<Rightarrow> gtype" where
  "elemType v = (case v of VSlice t xs \<Rightarrow> t | VArray t xs \<Rightarrow> t | VPtr t p \<Rightarrow> t
     | VMap k e m \<Rightarrow> e | _ \<Rightarrow> TOther KInvalid [])"

definition bytesToString :: "val list \<Rightarrow> string" where
  "bytesToString bs = map (\<lambda>b. char_of (unat (wordOf b))) bs"

definition stringToBytes :: "string \<Rightarrow> val list" where
  "stringToBytes s = map (\<lambda>c. VUint KUint8 (of_nat (of_char c))) s"

definition assignString :: "env \<Rightarrow> assigner \<Rightarrow> val \<Rightarrow> string \<Rightarrow> rvalue \<Rightarrow> sret" where
  "assignString env a targetVal targetKey source =
     (case indirect source of
        None \<Rightarrow> Panics
      | Some sourceVal \<Rightarrow>
         (let sourceKind = kindOf sourceVal; weak = WeaklyTypedInput (config a) in
          if isString sourceKind then ok (setString targetVal (strOf sourceVal))
          else if weak \<and> isBool sourceKind then
            (if boolOf sourceVal then ok (setString targetVal ''1'')
             else ok (setString targetVal ''0''))
          else if weak \<and> isInt sourceKind then
            ok (setString targetVal (formatInt env (wordOf sourceVal)))
          else if weak \<and> isUint sourceKind then
            ok (setString targetVal (formatUint env (wordOf sourceVal)))
          else if weak \<and> isFloat sourceKind then
            ok (setString targetVal (formatFloat env (wordOf sourceVal)))
          else if weak \<and> isArraySlice sourceKind
                  \<and> kindOfType (elemType sourceVal) = KUint8 then
            ok (setString targetVal (bytesToString (seqElems sourceVal)))
          else fails targetVal (MsgUnconvertible targetKey)))"

definition assignInt :: "env \<Rightarrow> assigner \<Rightarrow> val \<Rightarrow> string \<Rightarrow> rvalue \<Rightarrow> sret" where
  "assignInt env a targetVal targetKey source =
     (case indirect source of
        None \<Rightarrow> Panics
      | Some sourceVal \<Rightarrow>
         (let sourceKind = kindOf sourceVal; sourceType = typeOf sourceVal;
              weak = WeaklyTypedInput (config a) in
          if isInt sourceKind then ok (setInt env targetVal (wordOf sourceVal))
          else if isUint sourceKind then ok (setInt env targetVal (wordOf sourceVal))
          else if isFloat sourceKind then
            ok (setInt env targetVal (int64OfFloat env (wordOf sourceVal)))
          else if weak \<and> isBool sourceKind then
            (if boolOf sourceVal then ok (setInt env targetVal 1)
             else ok (setInt env targetVal 0))
          else if weak \<and> isString sourceKind then
            (let str = strOf sourceVal; str = (if str = [] then ''0'' else str) in
             case parseInt env str (bitsOf env (kindOf targetVal)) of
               Some i \<Rightarrow> ok (setInt env targetVal i)
             | None \<Rightarrow> fails targetVal (MsgCannotParse targetKey ''int''))
          else if isJsonNumber sourceType then
            (case jsonInt64 env (strOf sourceVal) of
               None \<Rightarrow> fails targetVal (MsgJsonNumber targetKey)
             | Some i \<Rightarrow> ok (setInt env targetVal i))
          else fails targetVal (MsgUnconvertible targetKey)))"

definition assignBool ::
  "env \<Rightarrow> assigner \<Rightarrow> val \<Rightarrow> string \<Rightarrow> rvalue \<Rightarrow> string \<Rightarrow> sret" where
  "assignBool env a targetVal targetKey source sourceKey =
     (case indirect source of
        None \<Rightarrow> Panics
      | Some sourceVal \<Rightarrow>
         (let sourceKind = kindOf sourceVal; weak = WeaklyTypedInput (config a) in
          if isBool sourceKind then ok (setBool targetVal (boolOf sourceVal))
          else if weak \<and> isInt sourceKind then ok (setBool targetVal (wordOf sourceVal \<noteq> 0))
          else if weak \<and> isUint sourceKind then ok (setBool targetVal (wordOf sourceVal \<noteq> 0))
          else if weak \<and> isFloat sourceKind then
            ok (setBool targetVal (\<not> floatIsZero (wordOf sourceVal)))
          else if weak \<and> isString sourceKind then
            (case parseBool (strOf sourceVal) of
               Some b \<Rightarrow> ok (setBool targetVal b)
             | None \<Rightarrow>
                 if strOf sourceVal = [] then ok (setBool targetVal False)
                 else fails targetVal
                   (MsgCannotParse (case variant env of V1 \<Rightarrow> targetKey | V2 \<Rightarrow> sourceKey)
                      ''bool''))
          else fails targetVal (MsgUnconvertible targetKey)))"

text \<open>The second variant refuses NaN and infinities (\<^verbatim>\<open>checkNaNAndInf\<close>), or stores 0
  for them under weak typing (\<^verbatim>\<open>setFloatValue\<close>); the first stores every float.\<close>

definition checkNaNAndInf :: "string \<Rightarrow> 64 word \<Rightarrow> error option" where
  "checkNaNAndInf key f =
     (if floatIsNaN f \<or> floatIsInf f then Some (ErrorMsg (MsgNaNOrInf key)) else None)"

definition setFloatValue :: "env \<Rightarrow> assigner \<Rightarrow> val \<Rightarrow> string \<Rightarrow> 64 word \<Rightarrow> sret" where
  "setFloatValue env a targetVal key f =
     (case variant env of
        V1 \<Rightarrow> ok (setFloat env targetVal f)
      | V2 \<Rightarrow>
         (case checkNaNAndInf key f of
            Some err \<Rightarrow>
              if WeaklyTypedInput (config a) then ok (setFloat env targetVal 0)
              else Returns (targetVal, Some err)
          | None \<Rightarrow> ok (setFloat env targetVal f)))"

definition assignFloat :: "env \<Rightarrow> assigner \<Rightarrow> val \<Rightarrow> string \<Rightarrow> rvalue \<Rightarrow> sret" where
  "assignFloat env a targetVal targetKey source =
     (case indirect source of
        None \<Rightarrow> Panics
      | Some sourceVal \<Rightarrow>
         (let sourceKind = kindOf sourceVal; sourceType = typeOf sourceVal;
              weak = WeaklyTypedInput (config a) in
          if isInt sourceKind then ok (setFloat env targetVal (int64ToFloat env (wordOf sourceVal)))
          else if isUint sourceKind then
            ok (setFloat env targetVal (uint64ToFloat env (wordOf sourceVal)))
          else if isFloat sourceKind then setFloatValue env a targetVal targetKey (wordOf sourceVal)
          else if weak \<and> isBool sourceKind then
            (if boolOf sourceVal then ok (setFloat env targetVal 0x3FF0000000000000)
             else ok (setFloat env targetVal 0))
          else if weak \<and> isString sourceKind then
            (let str = strOf sourceVal; str = (if str = [] then ''0'' else str) in
             case parseFloat env str (bitsOf env (kindOf targetVal)) of
               None \<Rightarrow> fails targetVal (MsgCannotParse targetKey ''float'')
             | Some f \<Rightarrow> setFloatValue env a targetVal targetKey f)
          else if isJsonNumber sourceType then
            (case jsonFloat64 env (strOf sourceVal) of
               None \<Rightarrow> fails targetVal (MsgJsonNumber targetKey)
             | Some f \<Rightarrow> setFloatValue env a targetVal targetKey f)
          else fails targetVal (MsgUnconvertible targetKey)))"

definition assignFunc :: "val \<Rightarrow> string \<Rightarrow> rvalue \<Rightarrow> sret" where
  "assignFunc targetVal targetKey source =
     (case indirect source of
        None \<Rightarrow> Panics
      | Some sourceVal \<Rightarrow>
          if typeOf targetVal \<noteq> typeOf sourceVal then fails targetVal (MsgUnconvertible targetKey)
          else Returns (sourceVal, None))"

section \<open>Metadata and key paths\<close>

definition addMetaKey :: "meta \<Rightarrow> string \<Rightarrow> meta" where
  "addMetaKey md targetKey = (case md of None \<Rightarrow> None
     | Some m \<Rightarrow> if targetKey = [] then Some m else Some (m\<lparr>Keys := Keys m @ [targetKey]\<rparr>))"

definition addMetaUnused :: "meta \<Rightarrow> string \<Rightarrow> meta" where
  "addMetaUnused md sourceKey = (case md of None \<Rightarrow> None
     | Some m \<Rightarrow> if sourceKey = [] then Some m else Some (m\<lparr>Unused := Unused m @ [sourceKey]\<rparr>))"

definition addMetaUnset :: "meta \<Rightarrow> string \<Rightarrow> meta" where
  "addMetaUnset md targetKey = (case md of None \<Rightarrow> None
     | Some m \<Rightarrow> if targetKey = [] then Some m else Some (m\<lparr>Unset := Unset m @ [targetKey]\<rparr>))"

definition genFullKey :: "kind \<Rightarrow> string \<Rightarrow> string \<Rightarrow> string" where
  "genFullKey parentKind parentFull keyName =
     (if parentKind = KInvalid then keyName
      else if parentFull = [] then keyName
      else if keyName = [] then parentFull
      else if parentKind = KMap \<or> parentKind = KArray \<or> parentKind = KSlice
        then parentFull @ ''['' @ keyName @ '']''
      else parentFull @ ''.'' @ keyName)"

definition newChild :: "string \<Rightarrow> kind \<Rightarrow> string \<Rightarrow> string" where
  "newChild k parentKind fieldName = genFullKey parentKind k fieldName"

text \<open>
  \<^verbatim>\<open>shouldSkipKey\<close>. The first variant scans \<open>SkipKeys\<close> and, on a match, records the
  source path as unused and the target path as unset before it answers; the second looks
  the two paths up in the cache and records nothing.
\<close>

definition shouldSkipKey :: "env \<Rightarrow> assigner \<Rightarrow> string \<Rightarrow> string \<Rightarrow> meta \<Rightarrow> bool \<times> meta" where
  "shouldSkipKey env a targetKey sourceKey md =
     (if targetKey = [] \<or> sourceKey = [] then (False, md)
      else case variant env of
        V1 \<Rightarrow>
          if \<exists>keyToSkip \<in> set (SkipKeys (config a)). targetKey = keyToSkip \<or> sourceKey = keyToSkip
          then (True, addMetaUnset (addMetaUnused md sourceKey) targetKey)
          else (False, md)
      | V2 \<Rightarrow> (targetKey \<in> skipKeysCache a \<or> sourceKey \<in> skipKeysCache a, md))"

text \<open>\<^verbatim>\<open>strconv.Itoa\<close> on an index.\<close>

fun itoa :: "nat \<Rightarrow> string" where
  "itoa n = (if n < 10 then [char_of (48 + n)] else itoa (n div 10) @ [char_of (48 + n mod 10)])"

declare itoa.simps [simp del]

section \<open>Struct tags and zero tests\<close>

text \<open>\<^verbatim>\<open>strings.Split(s, ",")\<close>.\<close>

fun splitComma :: "string \<Rightarrow> string list" where
  "splitComma [] = [[]]"
| "splitComma (c # cs) =
     (if c = CHR '','' then [] # splitComma cs
      else (case splitComma cs of p # ps \<Rightarrow> (c # p) # ps | [] \<Rightarrow> [[c]]))"

definition tagGet :: "sfield \<Rightarrow> string \<Rightarrow> string" where
  "tagGet f key = (case map_of (Tag f) key of Some v \<Rightarrow> v | None \<Rightarrow> [])"

text \<open>\<^verbatim>\<open>parseTag\<close> returns the external name, the omitempty flag and the skip flag.\<close>

definition parseTag :: "assigner \<Rightarrow> sfield \<Rightarrow> string \<times> bool \<times> bool" where
  "parseTag a f =
     (let pieces = splitComma (tagGet f (TagName (config a)));
          dname = Name f;
          first = (case pieces of [] \<Rightarrow> [] | p # ps \<Rightarrow> p);
          (aname, skip) =
            (if pieces = [] \<or> first = [] then (Converter (config a) dname, False)
             else if first = ''-'' then
               (if IncludeIgnoreFields (config a) then (Converter (config a) dname, False)
                else ([], True))
             else (first, False))
      in (aname, ''omitempty'' \<in> set pieces, skip))"

text \<open>\<^verbatim>\<open>StructField.IsExported\<close>: the name starts with an upper-case letter.\<close>

definition isExported :: "sfield \<Rightarrow> bool" where
  "isExported f = (case Name f of [] \<Rightarrow> False
     | c # cs \<Rightarrow> (65::nat) \<le> of_char c \<and> of_char c \<le> (90::nat))"

text \<open>The zero test of the flattener: \<^verbatim>\<open>isZeroValue\<close> in the second variant,
  \<^verbatim>\<open>Value.IsZero\<close> in the first. Both recurse through arrays and structs and differ at most
  in how a float is compared with zero, which is the parameter.\<close>

primrec zeroWith :: "(64 word \<Rightarrow> bool) \<Rightarrow> val \<Rightarrow> bool" where
  "zeroWith fz (VBool b) = (\<not> b)"
| "zeroWith fz (VInt k w) = (w = 0)"
| "zeroWith fz (VUint k w) = (w = 0)"
| "zeroWith fz (VFloat k w) = fz w"
| "zeroWith fz (VString s) = (s = [])"
| "zeroWith fz (VJsonNumber s) = (s = [])"
| "zeroWith fz (VInterface x) = (x = None)"
| "zeroWith fz (VStruct n fs) = list_all snd (map (map_prod id (zeroWith fz)) fs)"
| "zeroWith fz (VMap k e m) = (m = None)"
| "zeroWith fz (VPtr t p) = (p = None)"
| "zeroWith fz (VSlice t xs) = (xs = None)"
| "zeroWith fz (VArray t xs) = list_all id (map (zeroWith fz) xs)"
| "zeroWith fz (VFunc n f) = (f = None)"
| "zeroWith fz (VOther k n z) = z"

definition isZeroValue :: "val \<Rightarrow> bool" where
  "isZeroValue v = zeroWith floatIsZero v"

definition reflectIsZero :: "val \<Rightarrow> bool" where
  "reflectIsZero v = zeroWith (\<lambda>w. w = 0) v"

definition fieldIsZero :: "env \<Rightarrow> val \<Rightarrow> bool" where
  "fieldIsZero env v = (case variant env of V1 \<Rightarrow> reflectIsZero v | V2 \<Rightarrow> isZeroValue v)"

definition isEmptyValue :: "val \<Rightarrow> bool" where
  "isEmptyValue v = (case v of
       VArray t xs \<Rightarrow> xs = []
     | VMap k e m \<Rightarrow> (case m of None \<Rightarrow> True | Some es \<Rightarrow> es = [])
     | VSlice t xs \<Rightarrow> (case xs of None \<Rightarrow> True | Some es \<Rightarrow> es = [])
     | VString s \<Rightarrow> s = []
     | VJsonNumber s \<Rightarrow> s = []
     | VBool b \<Rightarrow> \<not> b
     | VInt k w \<Rightarrow> w = 0
     | VUint k w \<Rightarrow> w = 0
     | VFloat k w \<Rightarrow> floatIsZero w
     | VInterface x \<Rightarrow> x = None
     | VPtr t p \<Rightarrow> p = None
     | _ \<Rightarrow> False)"

definition isNilVal :: "val \<Rightarrow> bool" where
  "isNilVal v = (case v of VInterface x \<Rightarrow> x = None | VMap k e m \<Rightarrow> m = None
     | VPtr t p \<Rightarrow> p = None | VSlice t xs \<Rightarrow> xs = None | VFunc n f \<Rightarrow> f = None
     | VOther k n z \<Rightarrow> z | _ \<Rightarrow> False)"

section \<open>Flattening a struct\<close>

text \<open>
  A slot inside a struct is addressed by the indices of the fields that lead to it; an
  embedded pointer on the way is followed. \<open>modPath\<close> rewrites the slot, \<open>getPath\<close>
  reads it.
\<close>

definition updField :: "nat \<Rightarrow> (val \<Rightarrow> val) \<Rightarrow> val \<Rightarrow> val" where
  "updField i g v = (case v of
       VStruct n fs \<Rightarrow> if i < length fs then VStruct n (fs[i := (fst (fs ! i), g (snd (fs ! i)))])
                       else v
     | _ \<Rightarrow> v)"

definition throughPtr :: "(val \<Rightarrow> val) \<Rightarrow> val \<Rightarrow> val" where
  "throughPtr g v = (case v of VPtr t (Some s) \<Rightarrow> VPtr t (Some (g s)) | _ \<Rightarrow> g v)"

primrec modPath :: "nat list \<Rightarrow> (val \<Rightarrow> val) \<Rightarrow> val \<Rightarrow> val" where
  "modPath [] g v = g v"
| "modPath (i # is) g v = throughPtr (updField i (modPath is g)) v"

definition derefStruct :: "val \<Rightarrow> val" where
  "derefStruct v = (case v of VPtr t (Some s) \<Rightarrow> s | _ \<Rightarrow> v)"

primrec getPath :: "nat list \<Rightarrow> val \<Rightarrow> val option" where
  "getPath [] v = Some v"
| "getPath (i # is) v = (case derefStruct v of
       VStruct n fs \<Rightarrow> if i < length fs then getPath is (snd (fs ! i)) else None
     | _ \<Rightarrow> None)"

text \<open>\<^verbatim>\<open>fieldVal.Set(reflect.New(field.Type.Elem()))\<close> on a nil embedded pointer.\<close>

definition initAt :: "nat list \<Rightarrow> val \<Rightarrow> val" where
  "initAt p root = modPath p (\<lambda>v. case v of VPtr t None \<Rightarrow> VPtr t (Some (zero t)) | _ \<Rightarrow> v) root"

text \<open>A struct waiting in the queue \<^verbatim>\<open>structs\<close>: its value, its path from the flattened
  struct (\<open>None\<close> for a temporary) and whether its fields can be set.\<close>

type_synonym pending = "val \<times> nat list option \<times> bool"

text \<open>
  What the flattener makes of an embedded field: a pointer to a struct is followed; a nil
  one is initialised in place when it can be set (the last component says so), and is
  replaced by a temporary zero struct otherwise. The result is the value to look at, its
  path, and whether its fields can be set.
\<close>

definition derefEmbedded ::
  "val \<Rightarrow> nat list option \<Rightarrow> bool \<Rightarrow> val \<times> nat list option \<times> bool \<times> bool" where
  "derefEmbedded fv here canSet = (case fv of
       VPtr t p \<Rightarrow>
         if kindOfType t = KStruct then
           (case p of
              None \<Rightarrow> if canSet then (zero t, here, True, True) else (zero t, None, True, False)
            | Some s \<Rightarrow> (s, here, True, False))
         else (fv, here, canSet, False)
     | _ \<Rightarrow> (fv, here, canSet, False))"

text \<open>The body of the inner loop of \<^verbatim>\<open>flattenStruct\<close>, for field \<open>i\<close> of the struct at
  \<open>path\<close>. The state is the field set captured so far (in order of capture), the
  structs queued, and the paths of the embedded pointers that were initialised.\<close>

type_synonym fstate = "fieldInfo list \<times> pending list \<times> nat list list"

definition flattenField ::
  "env \<Rightarrow> assigner \<Rightarrow> nat list option \<Rightarrow> bool \<Rightarrow> nat \<Rightarrow> sfield \<times> val \<Rightarrow> fstate \<Rightarrow> fstate" where
  "flattenField env a path canSet i x st = (case (x, st) of
       ((f, fv), (flds, structs, inits)) \<Rightarrow>
         if \<not> isExported f then (flds, structs, inits)
         else case parseTag a f of (aname, oe, skip) \<Rightarrow>
           if skip then (flds, structs, inits)
           else if oe \<and> fieldIsZero env fv then (flds, structs, inits)
           else
             (let here = map_option (\<lambda>p. p @ [i]) path;
                  (ev, epath, eset, init) =
                     (if Anonymous f then derefEmbedded fv here canSet
                      else (fv, here, canSet, False));
                  inits' = (case here of Some p \<Rightarrow> if init then inits @ [p] else inits
                            | None \<Rightarrow> inits)
              in if Anonymous f \<and> kindOf ev = KStruct
                   then (flds, structs @ [(ev, epath, eset)], inits')
                 else if Name f \<in> set (map displayName flds)
                   then (flds, structs, inits')
                 else (flds @ [\<lparr>field = f, fieldVal = ev, fieldPath = epath,
                                  fieldCanSet = eset, displayName = Name f,
                                  actualName = aname, omitempty = oe\<rparr>],
                       structs, inits')))"

text \<open>The inner loop, over the fields from index \<open>i\<close> on.\<close>

fun flattenFields ::
  "env \<Rightarrow> assigner \<Rightarrow> nat list option \<Rightarrow> bool \<Rightarrow> nat \<Rightarrow> (sfield \<times> val) list \<Rightarrow> fstate \<Rightarrow> fstate" where
  "flattenFields env a path canSet i [] st = st"
| "flattenFields env a path canSet i (x # rest) st =
     flattenFields env a path canSet (Suc i) rest (flattenField env a path canSet i x st)"

definition structFields :: "val \<Rightarrow> (sfield \<times> val) list" where
  "structFields v = (case v of VStruct n fs \<Rightarrow> fs | _ \<Rightarrow> [])"

text \<open>The outer loop: \<^verbatim>\<open>for len(structs) > 0\<close>, with a budget of iterations.\<close>

fun flattenLoop ::
  "nat \<Rightarrow> env \<Rightarrow> assigner \<Rightarrow> pending list \<Rightarrow> fieldInfo list \<Rightarrow> nat list list
     \<Rightarrow> (fieldInfo list \<times> nat list list) option" where
  "flattenLoop 0 env a structs flds inits = None"
| "flattenLoop (Suc n) env a [] flds inits = Some (flds, inits)"
| "flattenLoop (Suc n) env a ((sv, path, canSet) # structs) flds inits =
     (case flattenFields env a path canSet 0 (structFields sv) (flds, structs, inits) of
        (flds', structs', inits') \<Rightarrow> flattenLoop n env a structs' flds' inits')"

text \<open>The number of structs a value can put into the queue, counting the zero struct
  behind a nil pointer; one more is the budget of the outer loop.\<close>

primrec structsInType :: "gtype \<Rightarrow> nat" where
  "structsInType TBool = 0"
| "structsInType (TInt k) = 0"
| "structsInType (TUint k) = 0"
| "structsInType (TFloat k) = 0"
| "structsInType TString = 0"
| "structsInType TJsonNumber = 0"
| "structsInType TInterface = 0"
| "structsInType (TStruct n fs) = Suc (sum_list (map snd (map (map_prod id structsInType) fs)))"
| "structsInType (TMap k e) = 0"
| "structsInType (TPtr t) = structsInType t"
| "structsInType (TSlice t) = 0"
| "structsInType (TArray n t) = 0"
| "structsInType (TFunc n) = 0"
| "structsInType (TOther k n) = 0"

primrec structsIn :: "val \<Rightarrow> nat" where
  "structsIn (VBool b) = 0"
| "structsIn (VInt k w) = 0"
| "structsIn (VUint k w) = 0"
| "structsIn (VFloat k w) = 0"
| "structsIn (VString s) = 0"
| "structsIn (VJsonNumber s) = 0"
| "structsIn (VInterface x) = 0"
| "structsIn (VStruct n fs) = Suc (sum_list (map snd (map (map_prod id structsIn) fs)))"
| "structsIn (VMap k e m) = 0"
| "structsIn (VPtr t p) = (case map_option structsIn p of None \<Rightarrow> structsInType t | Some c \<Rightarrow> c)"
| "structsIn (VSlice t xs) = 0"
| "structsIn (VArray t xs) = 0"
| "structsIn (VFunc n f) = 0"
| "structsIn (VOther k n z) = 0"

text \<open>\<^verbatim>\<open>flattenStruct\<close>: the flattened field set, and the struct with its nil embedded
  pointers initialised. It panics on a value that is not a struct (\<^verbatim>\<open>NumField\<close>).\<close>

definition flattenStruct :: "env \<Rightarrow> assigner \<Rightarrow> val \<Rightarrow> bool \<Rightarrow> (fieldInfo list \<times> val) outcome" where
  "flattenStruct env a v canSet =
     (if kindOf v \<noteq> KStruct then Panics
      else case flattenLoop (Suc (structsIn v)) env a [(v, Some [], canSet)] [] [] of
        None \<Rightarrow> OutOfFuel
      | Some (flds, inits) \<Rightarrow> Returns (flds, foldl (\<lambda>r p. initAt p r) v inits))"

section \<open>Loops\<close>

text \<open>A \<^verbatim>\<open>for\<close> loop over a list whose body either continues with a new state or
  panics.\<close>

fun foldO :: "('s \<Rightarrow> 'x \<Rightarrow> 's outcome) \<Rightarrow> 'x list \<Rightarrow> 's \<Rightarrow> 's outcome" where
  "foldO f [] s = Returns s"
| "foldO f (x # xs) s = bindO (f s x) (foldO f xs)"

text \<open>The same with an early \<^verbatim>\<open>return\<close>: the body yields \<open>Inr\<close> to go on and \<open>Inl\<close> to
  leave the loop with a result.\<close>

fun foldR :: "('s \<Rightarrow> 'x \<Rightarrow> ('r + 's) outcome) \<Rightarrow> 'x list \<Rightarrow> 's \<Rightarrow> ('r + 's) outcome" where
  "foldR f [] s = Returns (Inr s)"
| "foldR f (x # xs) s =
     bindO (f s x) (\<lambda>r. case r of Inl res \<Rightarrow> Returns (Inl res) | Inr s' \<Rightarrow> foldR f xs s')"

definition enumerate0 :: "'x list \<Rightarrow> (nat \<times> 'x) list" where
  "enumerate0 xs = zip [0..<length xs] xs"

text \<open>
  The equality \<^verbatim>\<open>==\<close> under which a map finds a key. Floats are compared as numbers: the
  two zeros are equal, and a NaN is equal to nothing, not even to itself. Interfaces,
  structs and arrays are compared part by part. The model keeps no addresses, so a
  pointer, a channel and a func are compared by what the model keeps of them, where Go
  compares their identity; \<open>byValue\<close> singles out the key types whose values are compared
  by content alone (the types of slices, maps and funcs are not key types at all).
\<close>

definition floatEq :: "64 word \<Rightarrow> 64 word \<Rightarrow> bool" where
  "floatEq x y = (\<not> floatIsNaN x \<and> \<not> floatIsNaN y \<and> (x = y \<or> floatIsZero x \<and> floatIsZero y))"

primrec keyEq :: "val \<Rightarrow> val \<Rightarrow> bool" where
  "keyEq (VBool b) y = (y = VBool b)"
| "keyEq (VInt k w) y = (y = VInt k w)"
| "keyEq (VUint k w) y = (y = VUint k w)"
| "keyEq (VFloat k w) y = (case y of VFloat k' w' \<Rightarrow> k = k' \<and> floatEq w w' | _ \<Rightarrow> False)"
| "keyEq (VString s) y = (y = VString s)"
| "keyEq (VJsonNumber s) y = (y = VJsonNumber s)"
| "keyEq (VInterface x) y = (case y of
       VInterface x' \<Rightarrow> (case (map_option keyEq x, x') of
                           (None, None) \<Rightarrow> True
                         | (Some same, Some b) \<Rightarrow> same b
                         | _ \<Rightarrow> False)
     | _ \<Rightarrow> False)"
| "keyEq (VStruct n fs) y = (case y of
       VStruct n' gs \<Rightarrow> n = n'
                         \<and> list_all2 (\<lambda>fp gb. fst fp = fst gb \<and> snd fp (snd gb))
                              (map (map_prod id keyEq) fs) gs
     | _ \<Rightarrow> False)"
| "keyEq (VMap kt et m) y = (y = VMap kt et m)"
| "keyEq (VPtr t p) y = (y = VPtr t p)"
| "keyEq (VSlice t xs) y = (y = VSlice t xs)"
| "keyEq (VArray t xs) y = (case y of
       VArray t' ys \<Rightarrow> t = t' \<and> list_all2 (\<lambda>same b. same b) (map keyEq xs) ys
     | _ \<Rightarrow> False)"
| "keyEq (VFunc n f) y = (y = VFunc n f)"
| "keyEq (VOther k n z) y = (y = VOther k n z)"

primrec byValue :: "gtype \<Rightarrow> bool" where
  "byValue TBool = True"
| "byValue (TInt k) = True"
| "byValue (TUint k) = True"
| "byValue (TFloat k) = True"
| "byValue TString = True"
| "byValue TJsonNumber = True"
| "byValue TInterface = False"
| "byValue (TStruct n fs) = list_all snd (map (map_prod id byValue) fs)"
| "byValue (TMap k e) = False"
| "byValue (TPtr t) = False"
| "byValue (TSlice t) = False"
| "byValue (TArray n t) = byValue t"
| "byValue (TFunc n) = False"
| "byValue (TOther k n) = False"

text \<open>\<^verbatim>\<open>MapIndex\<close> on the entries of a map: the element stored under the key, \<open>None\<close> (the
  zero Value) when there is none.\<close>

fun mapIndex :: "val \<Rightarrow> (val \<times> val) list \<Rightarrow> rvalue" where
  "mapIndex k [] = None"
| "mapIndex k ((k', v') # es) = (if keyEq k' k then Some v' else mapIndex k es)"

text \<open>\<^verbatim>\<open>SetMapIndex\<close> on the entries of a map: an entry under an equal key is replaced, in
  its place, by the new key and element (a float key, a string key and an interface key
  are stored anew); otherwise the entry is added.\<close>

fun setMapIndex :: "val \<Rightarrow> val \<Rightarrow> (val \<times> val) list \<Rightarrow> (val \<times> val) list" where
  "setMapIndex k v [] = [(k, v)]"
| "setMapIndex k v ((k', v') # es) =
     (if keyEq k' k then (k, v) # es else (k', v') # setMapIndex k v es)"

definition mapEntries :: "val \<Rightarrow> (val \<times> val) list" where
  "mapEntries v = (case v of VMap k e (Some es) \<Rightarrow> es | _ \<Rightarrow> [])"

definition keyType :: "val \<Rightarrow> gtype" where
  "keyType v = (case v of VMap k e m \<Rightarrow> k | _ \<Rightarrow> TOther KInvalid [])"

text \<open>\<^verbatim>\<open>Type.AssignableTo\<close>, for the types of the model: identical types, or any type to
  the empty interface.\<close>

definition assignableTo :: "gtype \<Rightarrow> gtype \<Rightarrow> bool" where
  "assignableTo s t = (s = t \<or> t = TInterface)"

text \<open>A child handed to the recursive \<^verbatim>\<open>assign\<close>: the first variant passes
  \<^verbatim>\<open>child.Interface()\<close>, the second the \<^verbatim>\<open>reflect.Value\<close> itself.\<close>

definition childSource :: "env \<Rightarrow> val \<Rightarrow> rvalue" where
  "childSource env v = (case variant env of V1 \<Rightarrow> toInterface v | V2 \<Rightarrow> Some v)"

text \<open>The same for a child that may be the zero Value (the result of \<^verbatim>\<open>MapIndex\<close> on a key
  that the map does not find): \<^verbatim>\<open>Interface()\<close> panics on it, the second variant passes it
  on.\<close>

definition childSourceOf :: "env \<Rightarrow> rvalue \<Rightarrow> rvalue outcome" where
  "childSourceOf env r = (case r of
       Some v \<Rightarrow> Returns (childSource env v)
     | None \<Rightarrow> (case variant env of V1 \<Rightarrow> Panics | V2 \<Rightarrow> Returns None))"

section \<open>The recursive engine\<close>

text \<open>
  A handler returns the new content of the target slot, the error (\<open>None\<close> is \<^verbatim>\<open>nil\<close>)
  and the metadata. The content is returned on failure too: what the handler wrote before
  it failed stays written. The handlers call each other recursively; the recursion is
  opened here (\<open>rec\<close>) and closed by \<open>run\<close> below, which bounds its depth.
\<close>

type_synonym ret = "val \<times> error option \<times> meta"

datatype call =
    CAssign assigner val bool string rvalue string
  | CAssignSlice assigner val string rvalue string
  | CAssignArray assigner val string rvalue string
  | CAssignMapFromStruct assigner val string val string

type_synonym recfn = "call \<Rightarrow> meta \<Rightarrow> ret outcome"

definition errorsResult :: "msg list \<Rightarrow> error option" where
  "errorsResult errors = (if errors \<noteq> [] then Some (Error errors) else None)"

definition collect :: "msg list \<Rightarrow> error option \<Rightarrow> msg list" where
  "collect errors err = (case err of None \<Rightarrow> errors | Some e \<Rightarrow> appendErrors errors e)"

definition failsWith :: "val \<Rightarrow> msg \<Rightarrow> meta \<Rightarrow> ret outcome" where
  "failsWith tv m md = Returns (tv, Some (ErrorMsg m), md)"

subsection \<open>Interface and pointer targets\<close>

text \<open>\<^verbatim>\<open>assignBasic\<close>. The element of an interface is never addressable, so the engine
  always works on a copy behind a fresh pointer, which cannot itself be set.\<close>

definition assignBasic ::
  "recfn \<Rightarrow> assigner \<Rightarrow> val \<Rightarrow> string \<Rightarrow> rvalue \<Rightarrow> string \<Rightarrow> meta \<Rightarrow> ret outcome" where
  "assignBasic rec a targetVal targetKey source sourceKey md = (case targetVal of
       VInterface (Some elem) \<Rightarrow>
         (let copied = True; copy = VPtr (typeOf elem) (Some elem) in
          bindO (rec (CAssign a copy False targetKey source sourceKey) md) (\<lambda>(copy', err, md').
            if err \<noteq> None \<or> \<not> copied then Returns (targetVal, err, md')
            else case copy' of
                VPtr t (Some e') \<Rightarrow> Returns (box TInterface e', None, md')
              | _ \<Rightarrow> Panics))
     | VInterface None \<Rightarrow>
         (let sourceVal = (case source of
                             Some (VPtr t p) \<Rightarrow> if t = typeOf targetVal then p else source
                           | _ \<Rightarrow> source);
              sourceVal = (case sourceVal of None \<Rightarrow> zero (typeOf targetVal) | Some v \<Rightarrow> v)
          in if \<not> assignableTo (typeOf sourceVal) (typeOf targetVal)
               then failsWith targetVal (MsgExpectedType targetKey) md
             else Returns (box (typeOf targetVal) sourceVal, None, md))
     | _ \<Rightarrow> Panics)"

definition nilableKind :: "kind \<Rightarrow> bool" where
  "nilableKind k = (k = KChan \<or> k = KFunc \<or> k = KInterface \<or> k = KMap \<or> k = KPointer
     \<or> k = KSlice)"

text \<open>The nil test of \<^verbatim>\<open>assignPtr\<close> on the source.\<close>

definition sourceIsNil :: "env \<Rightarrow> rvalue \<Rightarrow> bool" where
  "sourceIsNil env source =
     (let behind = (case indirect source of
                      Some v \<Rightarrow> nilableKind (kindOf v) \<and> isNilVal v
                    | None \<Rightarrow> False)
      in case variant env of
           V1 \<Rightarrow> source = None \<or> behind
         | V2 \<Rightarrow> isPtrAble (rkind source)
                 \<and> ((case source of Some s \<Rightarrow> isNilVal s | None \<Rightarrow> False) \<or> behind))"

text \<open>
  \<^verbatim>\<open>assignPtr\<close> also returns the flag that \<^verbatim>\<open>assign\<close> stores in \<^verbatim>\<open>addMetaKey\<close>: true after
  a nil assignment, false after the pointee was assigned (the recursive call on the
  pointee has handled the key). A nil pointer that cannot be set does not occur as a
  target (the only pointers that cannot be set come from \<^verbatim>\<open>reflect.New\<close>); the model panics
  there.
\<close>

definition assignPtr ::
  "recfn \<Rightarrow> env \<Rightarrow> assigner \<Rightarrow> val \<Rightarrow> bool \<Rightarrow> string \<Rightarrow> rvalue \<Rightarrow> string \<Rightarrow> meta
     \<Rightarrow> (ret \<times> bool) outcome" where
  "assignPtr rec env a targetVal canSet targetKey source sourceKey md = (case targetVal of
       VPtr t p \<Rightarrow>
         if sourceIsNil env source then
           Returns ((if p \<noteq> None \<and> canSet then VPtr t None else targetVal, None, md), True)
         else if canSet then
           (let realVal = (case p of None \<Rightarrow> zero t | Some v \<Rightarrow> v) in
            bindO (rec (CAssign a realVal True targetKey source sourceKey) md) (\<lambda>(v', err, md').
              if err \<noteq> None
                then Returns (((case p of None \<Rightarrow> targetVal | Some v \<Rightarrow> VPtr t (Some v')),
                               err, md'), False)
              else Returns ((VPtr t (Some v'), None, md'), False)))
         else (case p of
                 None \<Rightarrow> Panics
               | Some v \<Rightarrow>
                   bindO (rec (CAssign a v True targetKey source sourceKey) md)
                     (\<lambda>(v', err, md'). Returns ((VPtr t (Some v'), err, md'), False)))
     | _ \<Rightarrow> Panics)"

subsection \<open>Slice and array targets\<close>

text \<open>Lifting a value into a one-element slice: \<^verbatim>\<open>[]any{source}\<close> in the first variant,
  \<^verbatim>\<open>wrapSlice(sourceVal)\<close> (a slice of the value's own type) in the second.\<close>

definition wrapSlice :: "env \<Rightarrow> rvalue \<Rightarrow> rvalue \<Rightarrow> rvalue outcome" where
  "wrapSlice env source sourceVal = (case variant env of
       V1 \<Rightarrow> Returns (Some (VSlice TInterface (Some [VInterface source])))
     | V2 \<Rightarrow> (case sourceVal of
                None \<Rightarrow> Panics
              | Some v \<Rightarrow> Returns (Some (VSlice (typeOf v) (Some [v])))))"

text \<open>One round of the element loop of \<^verbatim>\<open>assignSlice\<close>: grow the target up to index \<open>i\<close>,
  then assign the element unless its key is skipped; an error is collected and the loop
  goes on.\<close>

definition sliceStep ::
  "recfn \<Rightarrow> env \<Rightarrow> assigner \<Rightarrow> gtype \<Rightarrow> string \<Rightarrow> string
     \<Rightarrow> val list \<times> msg list \<times> meta \<Rightarrow> nat \<times> val \<Rightarrow> (val list \<times> msg list \<times> meta) outcome" where
  "sliceStep rec env a elemT targetKey sourceKey st ix = (case (st, ix) of
       ((targetValSlice, errors, md), (i, sourceElem)) \<Rightarrow>
         (let grown = targetValSlice @ replicate (Suc i - length targetValSlice) (zero elemT);
              k = itoa i;
              targetFieldKey = newChild targetKey KSlice k;
              sourceFieldKey = newChild sourceKey KSlice k
          in case shouldSkipKey env a targetFieldKey sourceFieldKey md of
               (True, md1) \<Rightarrow> Returns (grown, errors, md1)
             | (False, md1) \<Rightarrow>
                 bindO (rec (CAssign a (grown ! i) True targetFieldKey
                               (childSource env sourceElem) sourceFieldKey) md1)
                   (\<lambda>(v', err, md2). Returns (grown[i := v'], collect errors err, md2))))"

definition assignSlice ::
  "recfn \<Rightarrow> env \<Rightarrow> assigner \<Rightarrow> val \<Rightarrow> string \<Rightarrow> rvalue \<Rightarrow> string \<Rightarrow> meta \<Rightarrow> ret outcome" where
  "assignSlice rec env a targetVal targetKey source sourceKey md =
     (let sourceVal = indirect source;
          sourceKind = rkind sourceVal;
          targetValElemType = elemType targetVal;
          sliceType = TSlice targetValElemType
      in if kindOf targetVal \<noteq> KSlice then Panics
         else if \<not> isArraySlice sourceKind then
           (if \<not> WeaklyTypedInput (config a)
              then failsWith targetVal (MsgMustBeArrayOrSlice targetKey sourceKind) md
            else if sourceKind = KMap then
              (if mapEntries (the sourceVal) = []
                 then Returns (VSlice targetValElemType (Some []), None, addMetaKey md targetKey)
               else bindO (wrapSlice env source sourceVal)
                      (\<lambda>w. rec (CAssignSlice a targetVal targetKey w sourceKey) md))
            else if sourceKind = KString \<and> kindOfType targetValElemType = KUint8 then
              rec (CAssignSlice a targetVal targetKey
                     (Some (VSlice (TUint KUint8) (Some (stringToBytes (strOf (the sourceVal))))))
                     sourceKey) md
            else bindO (wrapSlice env source sourceVal)
                   (\<lambda>w. rec (CAssignSlice a targetVal targetKey w sourceKey) md))
         else case sourceVal of
             None \<Rightarrow> Panics
           | Some sv \<Rightarrow>
               if sourceKind \<noteq> KArray \<and> isNilVal sv then Returns (targetVal, None, md)
               else
                 (let n = length (seqElems sv);
                      targetValSlice =
                        (case targetVal of
                           VSlice t None \<Rightarrow> replicate n (zero t)
                         | VSlice t (Some xs) \<Rightarrow> if length xs > n then take n xs else xs
                         | _ \<Rightarrow> [])
                  in bindO (foldO (sliceStep rec env a targetValElemType targetKey sourceKey)
                              (enumerate0 (seqElems sv)) (targetValSlice, [], md))
                       (\<lambda>(elems, errors, md').
                          Returns (VSlice targetValElemType (Some elems), errorsResult errors, md'))))"

text \<open>The element loop of \<^verbatim>\<open>assignArray\<close> indexes the array; an index past its end
  panics.\<close>

definition arrayStep ::
  "recfn \<Rightarrow> env \<Rightarrow> assigner \<Rightarrow> string \<Rightarrow> string
     \<Rightarrow> val list \<times> msg list \<times> meta \<Rightarrow> nat \<times> val \<Rightarrow> (val list \<times> msg list \<times> meta) outcome" where
  "arrayStep rec env a targetKey sourceKey st ix = (case (st, ix) of
       ((valArray, errors, md), (i, sourceElem)) \<Rightarrow>
         if i \<ge> length valArray then Panics
         else
           (let k = itoa i;
                targetFieldKey = newChild targetKey KArray k;
                sourceFieldKey = newChild sourceKey KArray k
            in case shouldSkipKey env a targetFieldKey sourceFieldKey md of
                 (True, md1) \<Rightarrow> Returns (valArray, errors, md1)
               | (False, md1) \<Rightarrow>
                   bindO (rec (CAssign a (valArray ! i) True targetFieldKey
                                 (childSource env sourceElem) sourceFieldKey) md1)
                     (\<lambda>(v', err, md2). Returns (valArray[i := v'], collect errors err, md2))))"

text \<open>What \<^verbatim>\<open>Len\<close> and \<^verbatim>\<open>Index\<close> give on the source of the array loop; they panic on a
  value that has no elements to index.\<close>

definition indexable :: "rvalue \<Rightarrow> val list outcome" where
  "indexable sourceVal = (case sourceVal of
       Some (VSlice t xs) \<Rightarrow> Returns (seqElems (VSlice t xs))
     | Some (VArray t xs) \<Rightarrow> Returns xs
     | Some (VString s) \<Rightarrow> Returns (stringToBytes s)
     | Some (VMap k e m) \<Rightarrow> if mapEntries (VMap k e m) = [] then Returns [] else Panics
     | _ \<Rightarrow> Panics)"

definition assignArray ::
  "recfn \<Rightarrow> env \<Rightarrow> assigner \<Rightarrow> val \<Rightarrow> string \<Rightarrow> rvalue \<Rightarrow> string \<Rightarrow> meta \<Rightarrow> ret outcome" where
  "assignArray rec env a targetVal targetKey source sourceKey md = (case targetVal of
       VArray targetValElemType cur \<Rightarrow>
         (let sourceVal = indirect source;
              sourceKind = rkind sourceVal;
              arrayLen = length cur;
              fresh = (targetVal = zero (typeOf targetVal));
              loop = (\<lambda>valArray.
                bindO (indexable sourceVal) (\<lambda>src.
                bindO (foldO (arrayStep rec env a targetKey sourceKey) (enumerate0 src)
                         (valArray, [], md))
                  (\<lambda>(elems, errors, md').
                     let filled = (case variant env of
                                     V1 \<Rightarrow> elems
                                   | V2 \<Rightarrow> take (length src) elems
                                           @ replicate (arrayLen - length src) (zero targetValElemType))
                     in Returns (VArray targetValElemType filled, errorsResult errors, md'))))
          in if fresh then
               (if sourceKind \<noteq> KArray \<and> sourceKind \<noteq> KSlice then
                  (if WeaklyTypedInput (config a) \<and> sourceKind = KMap
                        \<and> mapEntries (the sourceVal) = []
                     then Returns (zero (typeOf targetVal), None, addMetaKey md targetKey)
                   else if WeaklyTypedInput (config a) \<and> sourceKind \<noteq> KMap then
                     bindO (wrapSlice env source sourceVal)
                       (\<lambda>w. rec (CAssignArray a targetVal targetKey w sourceKey) md)
                   else failsWith targetVal (MsgMustBeArrayOrSlice targetKey sourceKind) md)
                else if length (seqElems (the sourceVal)) > arrayLen
                  then failsWith targetVal
                         (MsgLength targetKey arrayLen (length (seqElems (the sourceVal)))) md
                else loop (replicate arrayLen (zero targetValElemType)))
             else loop cur)
     | _ \<Rightarrow> Panics)"

subsection \<open>Map targets\<close>

text \<open>One round of the key loop of \<^verbatim>\<open>assignMapFromMap\<close>. The key is converted by the weak
  assigner, the element is assigned into a fresh value of the element type, and the entry
  is stored only when both succeeded. \<^verbatim>\<open>MapIndex\<close> finds the element of a key that
  \<^verbatim>\<open>MapKeys\<close> returned unless the key holds a NaN.\<close>

definition mapFromMapStep ::
  "recfn \<Rightarrow> env \<Rightarrow> assigner \<Rightarrow> gtype \<Rightarrow> gtype \<Rightarrow> string \<Rightarrow> string \<Rightarrow> (val \<times> val) list
     \<Rightarrow> (val \<times> val) list \<times> msg list \<times> meta \<Rightarrow> val
     \<Rightarrow> ((val \<times> val) list \<times> msg list \<times> meta) outcome" where
  "mapFromMapStep rec env a keyT elemT targetKey sourceKey sourceEntries st srcKey =
     (case st of (entries, errors, md) \<Rightarrow>
        (let kStr = sprintv env srcKey;
             targetElem = zero elemT;
             sourceElem = mapIndex srcKey sourceEntries;
             childTargetKey = newChild targetKey KMap kStr;
             childSourceKey = newChild sourceKey KMap kStr
         in case shouldSkipKey env a childTargetKey childSourceKey md of
              (True, md1) \<Rightarrow> Returns (entries, errors, md1)
            | (False, md1) \<Rightarrow>
                bindO (rec (CAssign (weakAssigner env) (zero keyT) True []
                              (childSource env srcKey) []) None)
                  (\<lambda>(currentKey, kerr, kmd). case kerr of
                       Some e \<Rightarrow> Returns (entries, appendErrors errors e, md1)
                     | None \<Rightarrow>
                         bindO (childSourceOf env sourceElem) (\<lambda>source.
                         bindO (rec (CAssign a targetElem True childTargetKey
                                       source childSourceKey) md1)
                           (\<lambda>(elem', err, md2). case err of
                                Some e \<Rightarrow> Returns (entries, appendErrors errors e, md2)
                              | None \<Rightarrow>
                                  Returns (setMapIndex currentKey elem' entries, errors, md2))))))"

definition assignMapFromMap ::
  "recfn \<Rightarrow> env \<Rightarrow> assigner \<Rightarrow> val \<Rightarrow> string \<Rightarrow> val \<Rightarrow> string \<Rightarrow> meta \<Rightarrow> ret outcome" where
  "assignMapFromMap rec env a targetVal targetKey sourceVal sourceKey md =
     (let targetValKeyType = keyType targetVal;
          targetValElemType = elemType targetVal
      in if isNilVal sourceVal then Returns (targetVal, None, md)
         else if mapEntries sourceVal = [] then
           Returns (VMap targetValKeyType targetValElemType (Some []), None,
                    addMetaKey md targetKey)
         else
           (let made = (if isNilVal targetVal
                        then VMap targetValKeyType targetValElemType (Some [])
                        else targetVal)
            in bindO (foldO (mapFromMapStep rec env a targetValKeyType targetValElemType
                               targetKey sourceKey (mapEntries sourceVal))
                        (mapKeys env (mapEntries sourceVal)) (mapEntries made, [], md))
                 (\<lambda>(entries, errors, md').
                    Returns (VMap targetValKeyType targetValElemType (Some entries),
                             errorsResult errors, md'))))"

text \<open>\<^verbatim>\<open>assignMapFromSlice\<close> assigns every element of the source into the same target map
  and returns at the first error. \<^verbatim>\<open>IsNil\<close> panics on an array.\<close>

definition mapFromSliceStep ::
  "recfn \<Rightarrow> env \<Rightarrow> assigner \<Rightarrow> string \<Rightarrow> string \<Rightarrow> val \<times> meta \<Rightarrow> nat \<times> val
     \<Rightarrow> (ret + val \<times> meta) outcome" where
  "mapFromSliceStep rec env a targetKey sourceKey st ix = (case (st, ix) of
       ((targetVal, md), (i, srcElem)) \<Rightarrow>
         bindO (rec (CAssign a targetVal True targetKey (childSource env srcElem)
                       (newChild sourceKey KSlice (itoa i))) md)
           (\<lambda>(tv', err, md'). case err of
                Some e \<Rightarrow> Returns (Inl (tv', Some e, md'))
              | None \<Rightarrow> Returns (Inr (tv', md'))))"

definition assignMapFromSlice ::
  "recfn \<Rightarrow> env \<Rightarrow> assigner \<Rightarrow> val \<Rightarrow> string \<Rightarrow> val \<Rightarrow> string \<Rightarrow> meta \<Rightarrow> ret outcome" where
  "assignMapFromSlice rec env a targetVal targetKey sourceVal sourceKey md =
     (let targetKeyType = keyType targetVal;
          targetElemType = elemType targetVal
      in if kindOf sourceVal = KArray then Panics
         else if isNilVal sourceVal then Returns (targetVal, None, md)
         else if seqElems sourceVal = [] then
           Returns (VMap targetKeyType targetElemType (Some []), None, addMetaKey md targetKey)
         else
           (let made = (if isNilVal targetVal
                        then VMap targetKeyType targetElemType (Some [])
                        else targetVal)
            in bindO (foldR (mapFromSliceStep rec env a targetKey sourceKey)
                        (enumerate0 (seqElems sourceVal)) (made, md))
                 (\<lambda>r. case r of
                      Inl res \<Rightarrow> Returns res
                    | Inr (tv, md') \<Rightarrow> Returns (tv, None, md'))))"

text \<open>
  One round of the field loop of \<^verbatim>\<open>assignMapFromStruct\<close>. It returns from the whole
  function when the field's type cannot be stored in the map, and (second variant only)
  when the key cannot be converted; the first variant ignores the result of the key
  conversion.
\<close>

definition mapFromStructStep ::
  "recfn \<Rightarrow> env \<Rightarrow> assigner \<Rightarrow> gtype \<Rightarrow> gtype \<Rightarrow> string \<Rightarrow> string
     \<Rightarrow> (val \<times> val) list \<times> meta \<Rightarrow> fieldInfo
     \<Rightarrow> (((val \<times> val) list \<times> error \<times> meta) + ((val \<times> val) list \<times> meta)) outcome" where
  "mapFromStructStep rec env a keyT elemT targetKey sourceKey st srcField =
     (case st of (entries, md) \<Rightarrow>
        if \<not> assignableTo (typeOf (fieldVal srcField)) elemT
          then Returns (Inl (entries, ErrorMsg MsgMapValueType, md))
        else
          (let targetFieldKey = newChild targetKey KMap (actualName srcField);
               sourceFieldKey = newChild sourceKey KStruct (displayName srcField)
           in case shouldSkipKey env a targetFieldKey sourceFieldKey md of
                (True, md1) \<Rightarrow> Returns (Inr (entries, md1))
              | (False, md1) \<Rightarrow>
                  bindO (rec (CAssign (weakAssigner env) (zero keyT) True []
                                (Some (VString (actualName srcField))) []) None)
                    (\<lambda>(keyVal, kerr, kmd).
                       if variant env = V2 \<and> kerr \<noteq> None
                         then Returns (Inl (entries, ErrorMsg (MsgMapKey (actualName srcField)), md1))
                       else if kindOf (fieldVal srcField) = KStruct then
                         (if assignableTo (typeOf (fieldVal srcField)) elemT then
                            Returns (Inr (setMapIndex keyVal (box elemT (fieldVal srcField)) entries,
                                          addMetaKey md1 targetFieldKey))
                          else
                            (let targetChild = VMap TString TInterface (Some []) in
                             if \<not> assignableTo (typeOf targetChild) elemT
                               then Returns (Inr (entries, addMetaUnused md1 sourceFieldKey))
                             else
                               bindO (rec (CAssignMapFromStruct a targetChild targetFieldKey
                                             (fieldVal srcField) sourceFieldKey) md1)
                                 (\<lambda>(child', err, md2). case err of
                                      Some e \<Rightarrow> Returns (Inl (entries, e, md2))
                                    | None \<Rightarrow>
                                        Returns (Inr (setMapIndex keyVal (box elemT child') entries,
                                                      addMetaKey md2 targetFieldKey)))))
                       else if omitempty srcField \<and> isEmptyValue (fieldVal srcField)
                         then Returns (Inr (entries, addMetaUnused md1 sourceFieldKey))
                       else Returns (Inr (setMapIndex keyVal (box elemT (fieldVal srcField)) entries,
                                          addMetaKey md1 targetFieldKey)))))"

text \<open>The source struct is only read: that flattening initialises the nil embedded
  pointers of an addressable source is not tracked.\<close>

definition assignMapFromStruct ::
  "recfn \<Rightarrow> env \<Rightarrow> assigner \<Rightarrow> val \<Rightarrow> string \<Rightarrow> val \<Rightarrow> string \<Rightarrow> meta \<Rightarrow> ret outcome" where
  "assignMapFromStruct rec env a targetVal targetKey sourceVal sourceKey md =
     (let targetKeyType = keyType targetVal;
          targetElemType = elemType targetVal;
          made = (if isNilVal targetVal then VMap targetKeyType targetElemType (Some [])
                  else targetVal)
      in bindO (flattenStruct env a sourceVal False) (\<lambda>(sourceFields, flattened).
           bindO (foldR (mapFromStructStep rec env a targetKeyType targetElemType
                           targetKey sourceKey)
                    (rangeFields env sourceFields) (mapEntries made, md))
             (\<lambda>r. case r of
                  Inl (entries, err, md') \<Rightarrow>
                    Returns (VMap targetKeyType targetElemType (Some entries), Some err, md')
                | Inr (entries, md') \<Rightarrow>
                    Returns (VMap targetKeyType targetElemType (Some entries), None, md'))))"

definition assignMap ::
  "recfn \<Rightarrow> env \<Rightarrow> assigner \<Rightarrow> val \<Rightarrow> string \<Rightarrow> rvalue \<Rightarrow> string \<Rightarrow> meta \<Rightarrow> ret outcome" where
  "assignMap rec env a targetVal targetKey source sourceKey md =
     (if kindOf targetVal \<noteq> KMap then Panics
      else case indirect source of
        None \<Rightarrow> failsWith targetVal (MsgExpectedMap targetKey KInvalid) md
      | Some sourceVal \<Rightarrow>
          (let sourceKind = kindOf sourceVal in
           if isMap sourceKind
             then assignMapFromMap rec env a targetVal targetKey sourceVal sourceKey md
           else if isStruct sourceKind
             then assignMapFromStruct rec env a targetVal targetKey sourceVal sourceKey md
           else if WeaklyTypedInput (config a) \<and> isArraySlice sourceKind
             then assignMapFromSlice rec env a targetVal targetKey sourceVal sourceKey md
           else failsWith targetVal (MsgExpectedMap targetKey sourceKind) md))"

subsection \<open>Struct targets\<close>

text \<open>Assigning into the slot of a flattened field of the struct \<open>root\<close>: the slot is read
  and written through its path; a write to a temporary is lost.\<close>

definition assignField ::
  "recfn \<Rightarrow> assigner \<Rightarrow> val \<Rightarrow> fieldInfo \<Rightarrow> string \<Rightarrow> rvalue \<Rightarrow> string \<Rightarrow> meta \<Rightarrow> ret outcome" where
  "assignField rec a root fi targetFieldKey source sourceFieldKey md = (case fieldPath fi of
       None \<Rightarrow>
         bindO (rec (CAssign a (fieldVal fi) True targetFieldKey source sourceFieldKey) md)
           (\<lambda>(v', err, md'). Returns (root, err, md'))
     | Some p \<Rightarrow>
         (case getPath p root of
            None \<Rightarrow> Panics
          | Some cur \<Rightarrow>
              bindO (rec (CAssign a cur True targetFieldKey source sourceFieldKey) md)
                (\<lambda>(v', err, md'). Returns (modPath p (\<lambda>old. v') root, err, md'))))"

text \<open>The external name of a field, converted to the key type of the source map by the
  weak assigner. The first variant converts into a fresh \<^verbatim>\<open>reflect.New(keyType)\<close> (a pointer
  that cannot be set) in every round; the second reuses one settable key value.\<close>

definition convertFieldName ::
  "recfn \<Rightarrow> env \<Rightarrow> gtype \<Rightarrow> val \<Rightarrow> string \<Rightarrow> (val \<times> error option) outcome" where
  "convertFieldName rec env keyT mapKey name = (case variant env of
       V1 \<Rightarrow>
         bindO (rec (CAssign (weakAssigner env) (VPtr keyT (Some (zero keyT))) False []
                       (Some (VString name)) []) None)
           (\<lambda>(kp, kerr, kmd). case kp of
                VPtr t (Some k) \<Rightarrow> Returns (k, kerr)
              | _ \<Rightarrow> Panics)
     | V2 \<Rightarrow>
         bindO (rec (CAssign (weakAssigner env) mapKey True [] (Some (VString name)) []) None)
           (\<lambda>(k, kerr, kmd). Returns (k, kerr)))"

text \<open>One round of the field loop of \<^verbatim>\<open>assignStructFromMap\<close>. The state is the target
  struct, the reused map key, the names of the map keys not yet consumed, the errors
  collected and the metadata.\<close>

definition structFromMapStep ::
  "recfn \<Rightarrow> env \<Rightarrow> assigner \<Rightarrow> gtype \<Rightarrow> string \<Rightarrow> string \<Rightarrow> (val \<times> val) list
     \<Rightarrow> val \<times> val \<times> string list \<times> msg list \<times> meta \<Rightarrow> fieldInfo
     \<Rightarrow> (val \<times> val \<times> string list \<times> msg list \<times> meta) outcome" where
  "structFromMapStep rec env a keyT targetKey sourceKey sourceEntries st targetField =
     (case st of (root, mapKey, unusedMapKeys, errors, md) \<Rightarrow>
        bindO (convertFieldName rec env keyT mapKey (actualName targetField))
          (\<lambda>(mapKey', kerr). case kerr of
               Some e \<Rightarrow> Returns (root, mapKey', unusedMapKeys, appendErrors errors e, md)
             | None \<Rightarrow>
                (let targetFieldKey = newChild targetKey KStruct (displayName targetField) in
                 case mapIndex mapKey' sourceEntries of
                   None \<Rightarrow>
                     Returns (root, mapKey', unusedMapKeys, errors, addMetaUnset md targetFieldKey)
                 | Some value \<Rightarrow>
                    (let sourceFieldKey = newChild sourceKey KMap (actualName targetField) in
                     case shouldSkipKey env a targetFieldKey sourceFieldKey md of
                       (True, md1) \<Rightarrow> Returns (root, mapKey', unusedMapKeys, errors, md1)
                     | (False, md1) \<Rightarrow>
                         if \<not> fieldCanSet targetField then
                           Returns (root, mapKey', unusedMapKeys, errors,
                                    addMetaUnset md1 targetFieldKey)
                         else
                           bindO (assignField rec a root targetField targetFieldKey
                                    (childSource env value) sourceFieldKey md1)
                             (\<lambda>(root', err, md2).
                                Returns (root', mapKey',
                                         removeAll (actualName targetField) unusedMapKeys,
                                         collect errors err, md2))))))"

definition assignStructFromMap ::
  "recfn \<Rightarrow> env \<Rightarrow> assigner \<Rightarrow> val \<Rightarrow> bool \<Rightarrow> string \<Rightarrow> val \<Rightarrow> string \<Rightarrow> meta \<Rightarrow> ret outcome" where
  "assignStructFromMap rec env a targetVal canSet targetKey sourceVal sourceKey md =
     (let sourceTypeKey = keyType sourceVal in
      if kindOfType sourceTypeKey \<noteq> KString \<and> kindOfType sourceTypeKey \<noteq> KInterface
        then failsWith targetVal (MsgNeedsStringKeys targetKey (kindOfType sourceTypeKey)) md
      else
        (let unusedMapKeys = remdups (map (valueString env) (mapKeys env (mapEntries sourceVal)))
         in bindO (flattenStruct env a targetVal canSet) (\<lambda>(targetFields, root).
              bindO (foldO (structFromMapStep rec env a sourceTypeKey targetKey sourceKey
                              (mapEntries sourceVal))
                       (rangeFields env targetFields)
                       (root, zero sourceTypeKey, unusedMapKeys, [], md))
                (\<lambda>(root', mapKey, unused, errors, md').
                   Returns (root', errorsResult errors,
                            foldl (\<lambda>m k. addMetaUnused m (newChild sourceKey KMap k)) md'
                              (rangeNames env unused))))))"

definition structFromStructStep ::
  "recfn \<Rightarrow> env \<Rightarrow> assigner \<Rightarrow> string \<Rightarrow> string
     \<Rightarrow> val \<times> fieldInfo list \<times> msg list \<times> meta \<Rightarrow> fieldInfo
     \<Rightarrow> (val \<times> fieldInfo list \<times> msg list \<times> meta) outcome" where
  "structFromStructStep rec env a targetKey sourceKey st targetField =
     (case st of (root, sourceFields, errors, md) \<Rightarrow>
        (let tfieldName = displayName targetField;
             targetFieldKey = newChild targetKey KStruct (displayName targetField)
         in case find (\<lambda>f. displayName f = tfieldName) sourceFields of
              None \<Rightarrow> Returns (root, sourceFields, errors, addMetaUnset md targetFieldKey)
            | Some sourceField \<Rightarrow>
               (let sourceFieldKey = newChild sourceKey KStruct (displayName sourceField) in
                case shouldSkipKey env a targetFieldKey sourceFieldKey md of
                  (True, md1) \<Rightarrow> Returns (root, sourceFields, errors, md1)
                | (False, md1) \<Rightarrow>
                    if \<not> fieldCanSet targetField then
                      Returns (root, sourceFields, errors, addMetaUnset md1 targetFieldKey)
                    else
                      bindO (assignField rec a root targetField targetFieldKey
                               (childSource env (fieldVal sourceField)) sourceFieldKey md1)
                        (\<lambda>(root', err, md2).
                           Returns (root', filter (\<lambda>f. displayName f \<noteq> tfieldName) sourceFields,
                                    collect errors err, md2)))))"

definition assignStructFromStruct ::
  "recfn \<Rightarrow> env \<Rightarrow> assigner \<Rightarrow> val \<Rightarrow> bool \<Rightarrow> string \<Rightarrow> val \<Rightarrow> string \<Rightarrow> meta \<Rightarrow> ret outcome" where
  "assignStructFromStruct rec env a targetVal canSet targetKey sourceVal sourceKey md =
     bindO (flattenStruct env a targetVal canSet) (\<lambda>(targetFields, root).
       bindO (flattenStruct env a sourceVal False) (\<lambda>(sourceFields, flattened).
         bindO (foldO (structFromStructStep rec env a targetKey sourceKey)
                  (rangeFields env targetFields) (root, sourceFields, [], md))
           (\<lambda>(root', remaining, errors, md').
              Returns (root', errorsResult errors,
                       foldl (\<lambda>m f. addMetaUnused m (newChild sourceKey KStruct (displayName f)))
                         md' (rangeFields env remaining)))))"

definition assignStruct ::
  "recfn \<Rightarrow> env \<Rightarrow> assigner \<Rightarrow> val \<Rightarrow> bool \<Rightarrow> string \<Rightarrow> rvalue \<Rightarrow> string \<Rightarrow> meta \<Rightarrow> ret outcome" where
  "assignStruct rec env a targetVal canSet targetKey source sourceKey md =
     (case indirect source of
        None \<Rightarrow> failsWith targetVal (MsgExpectedMap targetKey KInvalid) md
      | Some sourceVal \<Rightarrow>
          (let sourceKind = kindOf sourceVal in
           if sourceKind = KMap
             then assignStructFromMap rec env a targetVal canSet targetKey sourceVal sourceKey md
           else if sourceKind = KStruct
             then assignStructFromStruct rec env a targetVal canSet targetKey sourceVal sourceKey md
           else failsWith targetVal (MsgExpectedMap targetKey sourceKind) md))"

subsection \<open>Dispatch on the kind of the target\<close>

text \<open>The kind \<^verbatim>\<open>assign\<close> switches on: \<^verbatim>\<open>getKind(targetVal)\<close> in the first variant,
  \<^verbatim>\<open>targetVal.Kind()\<close> in the second, whose \<^verbatim>\<open>case\<close> lists name the sized kinds (and put
  \<^verbatim>\<open>Uintptr\<close> with the unsigned integers).\<close>

definition targetKindOf :: "env \<Rightarrow> val \<Rightarrow> kind" where
  "targetKindOf env targetVal =
     (case variant env of V1 \<Rightarrow> getKind (kindOf targetVal) | V2 \<Rightarrow> kindOf targetVal)"

definition caseInt :: "env \<Rightarrow> kind \<Rightarrow> bool" where
  "caseInt env k = (case variant env of V1 \<Rightarrow> k = KInt | V2 \<Rightarrow> isInt k)"

definition caseUint :: "env \<Rightarrow> kind \<Rightarrow> bool" where
  "caseUint env k = (case variant env of V1 \<Rightarrow> k = KUint | V2 \<Rightarrow> isUint k \<or> k = KUintptr)"

definition caseFloat :: "env \<Rightarrow> kind \<Rightarrow> bool" where
  "caseFloat env k = (case variant env of V1 \<Rightarrow> k = KFloat32 | V2 \<Rightarrow> isFloat k)"

definition supported :: "env \<Rightarrow> kind \<Rightarrow> bool" where
  "supported env k = (k = KBool \<or> k = KInterface \<or> k = KString \<or> caseInt env k
     \<or> caseUint env k \<or> caseFloat env k \<or> k = KStruct \<or> k = KMap \<or> k = KPointer
     \<or> k = KSlice \<or> k = KArray \<or> k = KFunc)"

definition scalar :: "meta \<Rightarrow> sret \<Rightarrow> (ret \<times> bool) outcome" where
  "scalar md r = bindO r (\<lambda>(v, err). Returns ((v, err, md), True))"

definition plain :: "ret outcome \<Rightarrow> (ret \<times> bool) outcome" where
  "plain r = bindO r (\<lambda>x. Returns (x, True))"

text \<open>The \<^verbatim>\<open>switch targetKind\<close> of \<^verbatim>\<open>assign\<close>, for a supported kind: the result of the
  shape handler and the value of \<^verbatim>\<open>addMetaKey\<close> after it.\<close>

definition dispatch ::
  "recfn \<Rightarrow> env \<Rightarrow> assigner \<Rightarrow> val \<Rightarrow> bool \<Rightarrow> string \<Rightarrow> rvalue \<Rightarrow> string \<Rightarrow> meta
     \<Rightarrow> (ret \<times> bool) outcome" where
  "dispatch rec env a targetVal canSet targetKey source sourceKey md =
     (let targetKind = targetKindOf env targetVal in
      if targetKind = KBool then scalar md (assignBool env a targetVal targetKey source sourceKey)
      else if targetKind = KInterface
        then plain (assignBasic rec a targetVal targetKey source sourceKey md)
      else if targetKind = KString then scalar md (assignString env a targetVal targetKey source)
      else if caseInt env targetKind then scalar md (assignInt env a targetVal targetKey source)
      else if caseUint env targetKind then scalar md (assignUint env a targetVal targetKey source)
      else if caseFloat env targetKind
        then scalar md (assignFloat env a targetVal targetKey source)
      else if targetKind = KStruct
        then plain (assignStruct rec env a targetVal canSet targetKey source sourceKey md)
      else if targetKind = KMap
        then plain (assignMap rec env a targetVal targetKey source sourceKey md)
      else if targetKind = KPointer
        then assignPtr rec env a targetVal canSet targetKey source sourceKey md
      else if targetKind = KSlice
        then plain (assignSlice rec env a targetVal targetKey source sourceKey md)
      else if targetKind = KArray
        then plain (assignArray rec env a targetVal targetKey source sourceKey md)
      else scalar md (assignFunc targetVal targetKey source))"

text \<open>
  \<^verbatim>\<open>assign\<close>. A typed nil pointer counts as an absent source. The second variant receives
  a \<^verbatim>\<open>reflect.Value\<close> and unwraps a value of kind Interface just before the switch. After
  the switch the first variant records the key whenever \<^verbatim>\<open>addMetaKey\<close> is true, the second
  only when, in addition, the handler returned no error. (In the first variant a test for
  an invalid \<^verbatim>\<open>reflect.ValueOf(source)\<close> follows the nil test; it cannot succeed there.)
\<close>

definition normalizeSource :: "rvalue \<Rightarrow> rvalue" where
  "normalizeSource source = (case source of Some (VPtr t None) \<Rightarrow> None | _ \<Rightarrow> source)"

definition unwrapInterface :: "env \<Rightarrow> rvalue \<Rightarrow> rvalue" where
  "unwrapInterface env source = (case variant env of
       V1 \<Rightarrow> source
     | V2 \<Rightarrow> (case source of Some (VInterface x) \<Rightarrow> x | _ \<Rightarrow> source))"

definition assign ::
  "recfn \<Rightarrow> env \<Rightarrow> assigner \<Rightarrow> val \<Rightarrow> bool \<Rightarrow> string \<Rightarrow> rvalue \<Rightarrow> string \<Rightarrow> meta \<Rightarrow> ret outcome" where
  "assign rec env a targetVal canSet targetKey source sourceKey md =
     (case shouldSkipKey env a targetKey sourceKey md of
        (True, md1) \<Rightarrow> Returns (targetVal, None, md1)
      | (False, md1) \<Rightarrow>
         (let source1 = normalizeSource source in
          if source1 = None then Returns (targetVal, None, md1)
          else if SkipSameValues (config a) \<and> deepEqual env targetVal source1
            then Returns (targetVal, None, addMetaUnset (addMetaUnused md1 sourceKey) targetKey)
          else
            (let sourceVal = unwrapInterface env source1;
                 targetKind = targetKindOf env targetVal
             in if \<not> supported env targetKind
                  then failsWith targetVal (MsgUnsupportedType targetKey targetKind) md1
                else
                  bindO (dispatch rec env a targetVal canSet targetKey sourceVal sourceKey md1)
                    (\<lambda>((tv, err, md2), addMetaKeyFlag).
                       Returns (tv, err,
                         if addMetaKeyFlag \<and> (variant env = V1 \<or> err = None)
                         then addMetaKey md2 targetKey else md2)))))"

subsection \<open>Closing the recursion\<close>

definition step :: "recfn \<Rightarrow> env \<Rightarrow> call \<Rightarrow> meta \<Rightarrow> ret outcome" where
  "step rec env c md = (case c of
       CAssign a targetVal canSet targetKey source sourceKey \<Rightarrow>
         assign rec env a targetVal canSet targetKey source sourceKey md
     | CAssignSlice a targetVal targetKey source sourceKey \<Rightarrow>
         assignSlice rec env a targetVal targetKey source sourceKey md
     | CAssignArray a targetVal targetKey source sourceKey \<Rightarrow>
         assignArray rec env a targetVal targetKey source sourceKey md
     | CAssignMapFromStruct a targetVal targetKey sourceVal sourceKey \<Rightarrow>
         assignMapFromStruct rec env a targetVal targetKey sourceVal sourceKey md)"

text \<open>\<open>run n\<close> allows \<open>n\<close> nested calls; a deeper recursion ends in \<open>OutOfFuel\<close>.\<close>

primrec run :: "nat \<Rightarrow> env \<Rightarrow> call \<Rightarrow> meta \<Rightarrow> ret outcome" where
  "run 0 env = (\<lambda>c md. OutOfFuel)"
| "run (Suc n) env = step (run n env) env"

section \<open>The entry point\<close>

text \<open>\<^verbatim>\<open>withConfig\<close> applies the overrides to a copy of the configuration. The metadata
  sink that the resulting configuration points to is the \<open>meta\<close> argument of \<open>Assign\<close>
  (its lists are never nil in the model).\<close>

definition withConfig :: "env \<Rightarrow> assigner \<Rightarrow> (AssignConfig \<Rightarrow> AssignConfig) list \<Rightarrow> assigner" where
  "withConfig env a configs =
     (let c = fold (\<lambda>fn c. fn c) configs (config a) in
      case variant env of
        V1 \<Rightarrow> \<lparr>config = c, skipKeysCache = {}\<rparr>
      | V2 \<Rightarrow> newAssigner c)"

text \<open>\<^verbatim>\<open>Assign(target, source, configs...)\<close> with a recursion budget \<open>n\<close>. The result
  carries the target as the caller finds it afterwards.\<close>

definition Assign ::
  "nat \<Rightarrow> env \<Rightarrow> assigner \<Rightarrow> rvalue \<Rightarrow> rvalue \<Rightarrow> (AssignConfig \<Rightarrow> AssignConfig) list \<Rightarrow> meta
     \<Rightarrow> (rvalue \<times> error option \<times> meta) outcome" where
  "Assign n env a target source configs md =
     (if rkind target \<noteq> KPointer then Returns (target, Some (ErrorMsg MsgTargetNotPointer), md)
      else case target of
          Some (VPtr t (Some targetVal)) \<Rightarrow>
            (let as = (if configs \<noteq> [] then withConfig env a configs else a) in
             bindO (run n env (CAssign as targetVal True [] source []) md)
               (\<lambda>(tv, err, md'). Returns (Some (VPtr t (Some tv)), err, md')))
        | _ \<Rightarrow> Returns (target, Some (ErrorMsg MsgTargetNotAddressable), md))"

section \<open>Sample inputs\<close>

text \<open>Two ways in which an implementation converts a float that \<^verbatim>\<open>uint64\<close> cannot
  represent: through the signed conversion, which yields the integer part in two's
  complement for a negative float down to \<open>- 2 ^ 63\<close> (x86-64), and saturating, which
  yields 0 for a negative float and for a NaN (arm64).\<close>

definition throughSigned :: "64 word \<Rightarrow> 64 word" where
  "throughSigned f = (case floatIntPart f of
       Some n \<Rightarrow> if bit f 63 \<and> n \<le> push_bit 63 1 then - n else push_bit 63 1
     | None \<Rightarrow> push_bit 63 1)"

definition saturating :: "64 word \<Rightarrow> 64 word" where
  "saturating f = (if floatIsNaN f \<or> bit f 63 then 0 else - 1)"

text \<open>A run time for the examples: 64-bit words, parsers that reject everything,
  saturating conversions, maps ranged over in insertion order, the identity as name
  converter.\<close>

definition exampleEnv :: "variant \<Rightarrow> env" where
  "exampleEnv v = \<lparr>variant = v, wordSize = 64,
     parseInt = (\<lambda>s n. None), parseUint = (\<lambda>s n. None), parseFloat = (\<lambda>s n. None),
     formatInt = (\<lambda>w. []), formatUint = (\<lambda>w. []), formatFloat = (\<lambda>w. []),
     floatToInt64 = (\<lambda>w. 0), floatToUint64 = saturating,
     int64ToFloat = (\<lambda>w. 0), uint64ToFloat = (\<lambda>w. 0), float32Round = (\<lambda>w. w),
     jsonInt64 = (\<lambda>s. None), jsonFloat64 = (\<lambda>s. None),
     sprintv = strOf, valueString = strOf, deepEqual = (\<lambda>v s. False),
     keyRank = (\<lambda>es k. 0), fieldRank = (\<lambda>fs f. 0), nameRank = (\<lambda>ns n. 0),
     toLowerCamel = (\<lambda>s. s)\<rparr>"

text \<open>A name converter for the examples: the first letter in lower case.\<close>

definition lowerFirst :: "string \<Rightarrow> string" where
  "lowerFirst s = (case s of [] \<Rightarrow> [] | c # cs \<Rightarrow>
     (if (65::nat) \<le> of_char c \<and> of_char c \<le> (90::nat)
      then char_of (of_char c + (32::nat)) else c) # cs)"

definition sampleEnv :: "variant \<Rightarrow> env" where
  "sampleEnv v = (exampleEnv v)\<lparr>toLowerCamel := lowerFirst\<rparr>"

definition plainField :: "string \<Rightarrow> sfield" where
  "plainField n = \<lparr>Name = n, Tag = [], Anonymous = False\<rparr>"

text \<open>\<^verbatim>\<open>T{X: 5, hidden: true}\<close> for \<^verbatim>\<open>type T struct { X int; hidden bool }\<close>.\<close>

definition sampleT :: val where
  "sampleT = VStruct ''T'' [(plainField ''X'', VInt KInt 5), (plainField ''hidden'', VBool True)]"

definition emptyMeta :: meta where
  "emptyMeta = Some \<lparr>Keys = [], Unused = [], Unset = []\<rparr>"


text \<open>A non-nil \<^verbatim>\<open>*map[string]string\<close> holding an empty map.\<close>

definition samplePtr :: val where
  "samplePtr = VPtr (TMap TString TString) (Some (VMap TString TString (Some [])))"

text \<open>The same run time on an implementation that converts through the signed
  integer.\<close>

definition signedEnv :: "variant \<Rightarrow> env" where
  "signedEnv v = (exampleEnv v)\<lparr>floatToUint64 := throughSigned\<rparr>"

section \<open>Tracing the rounds of a loop\<close>

text \<open>The rounds a loop goes through: for every element reached, the state before the
  round, the element, and the state after it.\<close>

fun rounds :: "('s \<Rightarrow> 'x \<Rightarrow> 's outcome) \<Rightarrow> 'x list \<Rightarrow> 's \<Rightarrow> ('s \<times> 'x \<times> 's) list" where
  "rounds f [] s = []"
| "rounds f (x # xs) s = (case f s x of Returns s' \<Rightarrow> (s, x, s') # rounds f xs s' | _ \<Rightarrow> [])"

text \<open>The messages that the outcome of a child call contributes to the error list of
  its parent: none when the child succeeds, its message or the messages of its aggregate
  when it fails.\<close>

definition childMsgs :: "ret outcome \<Rightarrow> msg list" where
  "childMsgs r = (case r of Returns (v, err, md) \<Rightarrow> collect [] err | _ \<Rightarrow> [])"

text \<open>The messages contributed by one round of each of the accumulating loops, read off
  the child calls that the round makes: the element assignment, and for maps and structs
  the key conversion before it; a skipped or unmatched child contributes nothing.\<close>

definition sliceRoundMsgs ::
  "recfn \<Rightarrow> env \<Rightarrow> assigner \<Rightarrow> gtype \<Rightarrow> string \<Rightarrow> string
     \<Rightarrow> val list \<times> msg list \<times> meta \<Rightarrow> nat \<times> val \<Rightarrow> msg list" where
  "sliceRoundMsgs rec env a elemT targetKey sourceKey st ix = (case (st, ix) of
       ((targetValSlice, errors, md), (i, sourceElem)) \<Rightarrow>
         (let grown = targetValSlice @ replicate (Suc i - length targetValSlice) (zero elemT);
              targetFieldKey = newChild targetKey KSlice (itoa i);
              sourceFieldKey = newChild sourceKey KSlice (itoa i)
          in case shouldSkipKey env a targetFieldKey sourceFieldKey md of
               (True, md1) \<Rightarrow> []
             | (False, md1) \<Rightarrow>
                 childMsgs (rec (CAssign a (grown ! i) True targetFieldKey
                                   (childSource env sourceElem) sourceFieldKey) md1)))"

definition arrayRoundMsgs ::
  "recfn \<Rightarrow> env \<Rightarrow> assigner \<Rightarrow> string \<Rightarrow> string
     \<Rightarrow> val list \<times> msg list \<times> meta \<Rightarrow> nat \<times> val \<Rightarrow> msg list" where
  "arrayRoundMsgs rec env a targetKey sourceKey st ix = (case (st, ix) of
       ((valArray, errors, md), (i, sourceElem)) \<Rightarrow>
         (let targetFieldKey = newChild targetKey KArray (itoa i);
              sourceFieldKey = newChild sourceKey KArray (itoa i)
          in case shouldSkipKey env a targetFieldKey sourceFieldKey md of
               (True, md1) \<Rightarrow> []
             | (False, md1) \<Rightarrow>
                 childMsgs (rec (CAssign a (valArray ! i) True targetFieldKey
                                   (childSource env sourceElem) sourceFieldKey) md1)))"

definition mapRoundMsgs ::
  "recfn \<Rightarrow> env \<Rightarrow> assigner \<Rightarrow> gtype \<Rightarrow> gtype \<Rightarrow> string \<Rightarrow> string \<Rightarrow> (val \<times> val) list
     \<Rightarrow> (val \<times> val) list \<times> msg list \<times> meta \<Rightarrow> val \<Rightarrow> msg list" where
  "mapRoundMsgs rec env a keyT elemT targetKey sourceKey sourceEntries st srcKey =
     (case st of (entries, errors, md) \<Rightarrow>
        (let kStr = sprintv env srcKey;
             childTargetKey = newChild targetKey KMap kStr;
             childSourceKey = newChild sourceKey KMap kStr
         in case shouldSkipKey env a childTargetKey childSourceKey md of
              (True, md1) \<Rightarrow> []
            | (False, md1) \<Rightarrow>
               (case rec (CAssign (weakAssigner env) (zero keyT) True []
                            (childSource env srcKey) []) None of
                  Returns (currentKey, Some e, kmd) \<Rightarrow> collect [] (Some e)
                | Returns (currentKey, None, kmd) \<Rightarrow>
                   (case childSourceOf env (mapIndex srcKey sourceEntries) of
                      Returns source \<Rightarrow>
                        childMsgs (rec (CAssign a (zero elemT) True childTargetKey
                                          source childSourceKey) md1)
                    | _ \<Rightarrow> [])
                | _ \<Rightarrow> [])))"

definition structFromMapRoundMsgs ::
  "recfn \<Rightarrow> env \<Rightarrow> assigner \<Rightarrow> gtype \<Rightarrow> string \<Rightarrow> string \<Rightarrow> (val \<times> val) list
     \<Rightarrow> val \<times> val \<times> string list \<times> msg list \<times> meta \<Rightarrow> fieldInfo \<Rightarrow> msg list" where
  "structFromMapRoundMsgs rec env a keyT targetKey sourceKey sourceEntries st targetField =
     (case st of (root, mapKey, unusedMapKeys, errors, md) \<Rightarrow>
        (case convertFieldName rec env keyT mapKey (actualName targetField) of
           Returns (mapKey', Some e) \<Rightarrow> collect [] (Some e)
         | Returns (mapKey', None) \<Rightarrow>
            (let targetFieldKey = newChild targetKey KStruct (displayName targetField);
                 sourceFieldKey = newChild sourceKey KMap (actualName targetField)
             in case mapIndex mapKey' sourceEntries of
                  None \<Rightarrow> []
                | Some value \<Rightarrow>
                   (case shouldSkipKey env a targetFieldKey sourceFieldKey md of
                      (True, md1) \<Rightarrow> []
                    | (False, md1) \<Rightarrow>
                        if \<not> fieldCanSet targetField then []
                        else childMsgs (assignField rec a root targetField targetFieldKey
                                          (childSource env value) sourceFieldKey md1)))
         | _ \<Rightarrow> []))"

definition structFromStructRoundMsgs ::
  "recfn \<Rightarrow> env \<Rightarrow> assigner \<Rightarrow> string \<Rightarrow> string
     \<Rightarrow> val \<times> fieldInfo list \<times> msg list \<times> meta \<Rightarrow> fieldInfo \<Rightarrow> msg list" where
  "structFromStructRoundMsgs rec env a targetKey sourceKey st targetField =
     (case st of (root, sourceFields, errors, md) \<Rightarrow>
        (let targetFieldKey = newChild targetKey KStruct (displayName targetField) in
         case find (\<lambda>f. displayName f = displayName targetField) sourceFields of
           None \<Rightarrow> []
         | Some sourceField \<Rightarrow>
            (let sourceFieldKey = newChild sourceKey KStruct (displayName sourceField) in
             case shouldSkipKey env a targetFieldKey sourceFieldKey md of
               (True, md1) \<Rightarrow> []
             | (False, md1) \<Rightarrow>
                 if \<not> fieldCanSet targetField then []
                 else childMsgs (assignField rec a root targetField targetFieldKey
                                   (childSource env (fieldVal sourceField)) sourceFieldKey md1))))"

text \<open>The slice that \<^verbatim>\<open>assignSlice\<close> starts its element loop with, for a source of \<open>n\<close>
  elements: newly made for a nil target, cut to \<open>n\<close> for a longer one.\<close>

definition sliceStart :: "val \<Rightarrow> nat \<Rightarrow> val list" where
  "sliceStart targetVal n = (case targetVal of
       VSlice t None \<Rightarrow> replicate n (zero t)
     | VSlice t (Some xs) \<Rightarrow> if length xs > n then take n xs else xs
     | _ \<Rightarrow> [])"

text \<open>The entry that one round of the key loop of \<^verbatim>\<open>assignMapFromMap\<close> stores in the
  target: the converted key with the assigned element, when the key is not skipped and
  both child calls succeed; \<open>mapWrites\<close> lists the entries stored by the rounds of a call,
  in order.\<close>

definition mapRoundWrite ::
  "recfn \<Rightarrow> env \<Rightarrow> assigner \<Rightarrow> gtype \<Rightarrow> gtype \<Rightarrow> string \<Rightarrow> string \<Rightarrow> (val \<times> val) list
     \<Rightarrow> (val \<times> val) list \<times> msg list \<times> meta \<Rightarrow> val \<Rightarrow> (val \<times> val) option" where
  "mapRoundWrite rec env a keyT elemT targetKey sourceKey sourceEntries st srcKey =
     (case st of (entries, errors, md) \<Rightarrow>
        (let kStr = sprintv env srcKey;
             childTargetKey = newChild targetKey KMap kStr;
             childSourceKey = newChild sourceKey KMap kStr
         in case shouldSkipKey env a childTargetKey childSourceKey md of
              (True, md1) \<Rightarrow> None
            | (False, md1) \<Rightarrow>
               (case rec (CAssign (weakAssigner env) (zero keyT) True []
                            (childSource env srcKey) []) None of
                  Returns (currentKey, None, kmd) \<Rightarrow>
                   (case childSourceOf env (mapIndex srcKey sourceEntries) of
                      Returns source \<Rightarrow>
                        (case rec (CAssign a (zero elemT) True childTargetKey
                                     source childSourceKey) md1 of
                           Returns (elem', None, md2) \<Rightarrow> Some (currentKey, elem')
                         | _ \<Rightarrow> None)
                    | _ \<Rightarrow> None)
                | _ \<Rightarrow> None)))"

definition mapWrites ::
  "recfn \<Rightarrow> env \<Rightarrow> assigner \<Rightarrow> val \<Rightarrow> string \<Rightarrow> val \<Rightarrow> string \<Rightarrow> meta \<Rightarrow> (val \<times> val) list" where
  "mapWrites rec env a targetVal targetKey sourceVal sourceKey md =
     List.map_filter
       (\<lambda>(s1, k, s2). mapRoundWrite rec env a (keyType targetVal) (elemType targetVal)
                         targetKey sourceKey (mapEntries sourceVal) s1 k)
       (rounds (mapFromMapStep rec env a (keyType targetVal) (elemType targetVal)
                  targetKey sourceKey (mapEntries sourceVal))
          (mapKeys env (mapEntries sourceVal)) (mapEntries targetVal, [], md))"

text \<open>\<^verbatim>\<open>map[string]string{"b": "bar"}\<close> and \<^verbatim>\<open>map[string]string{"a": "foo"}\<close>.\<close>

definition mapAB :: val where
  "mapAB = VMap TString TString (Some [(VString ''b'', VString ''bar'')])"

definition mapA :: val where
  "mapA = VMap TString TString (Some [(VString ''a'', VString ''foo'')])"

(*PROPERTIES*)
section \<open>Properties\<close>

lemma twos_complement_take_bit:
  "n \<le> 64 \<Longrightarrow> uint (take_bit n (i::64 word)) = sint i mod 2 ^ n"
proof -
  assume n: "n \<le> 64"
  have "uint (take_bit n i) = take_bit n (uint i)" by (rule unsigned_take_bit_eq)
  also have "\<dots> = take_bit n (sint i)"
    using n by (simp add: sint_uint take_bit_signed_take_bit)
  finally show ?thesis by (simp add: take_bit_eq_mod)
qed

lemma bitsOf_le: "wordSize env \<le> 64 \<Longrightarrow> bitsOf env k \<le> 64"
  by (simp add: bitsOf_def)

text \<open>
  C8. \<^verbatim>\<open>Assign\<close> returns an error at once, without touching the target, when the target
  is not a pointer, and when its dereference cannot be addressed (a nil pointer);
  otherwise it runs the recursive assignment on the dereferenced slot, with empty paths.
\<close>

theorem Assign_checks_target:
  "(rkind target \<noteq> KPointer \<longrightarrow>
      Assign n env a target source configs md
        = Returns (target, Some (ErrorMsg MsgTargetNotPointer), md))
   \<and> Assign n env a (Some (VPtr t None)) source configs md
        = Returns (Some (VPtr t None), Some (ErrorMsg MsgTargetNotAddressable), md)
   \<and> Assign n env a (Some (VPtr t (Some targetVal))) source configs md
        = bindO (run n env (CAssign (if configs \<noteq> [] then withConfig env a configs else a)
                              targetVal True [] source []) md)
            (\<lambda>(tv, err, md'). Returns (Some (VPtr t (Some tv)), err, md'))"
  by (simp add: Assign_def rkind_def kindOf_def)

theorem Assign_checks_target_witness:
  "rkind (Some (VInt KInt 5)) \<noteq> KPointer
   \<and> Assign 3 (exampleEnv V1) (defaultAssigner (exampleEnv V1)) (Some (VInt KInt 5))
        (Some (VInt KInt 7)) [] None
        = Returns (Some (VInt KInt 5), Some (ErrorMsg MsgTargetNotPointer), None)"
  using Assign_checks_target [of "Some (VInt KInt 5)" 3 "exampleEnv V1"
      "defaultAssigner (exampleEnv V1)" "Some (VInt KInt 7)" "[]" None]
  by (simp add: rkind_def kindOf_def)

text \<open>An absent source as \<^verbatim>\<open>assign\<close> tests for it (a nil \<^verbatim>\<open>any\<close> or an invalid Value, or a
  nil pointer) is a no-op in both variants.\<close>

lemma normalizeSource_absent:
  "source = None \<or> (\<exists>t. source = Some (VPtr t None)) \<Longrightarrow> normalizeSource source = None"
  by (auto simp: normalizeSource_def)

lemma assign_absent_source:
  assumes "source = None \<or> (\<exists>t. source = Some (VPtr t None))"
  shows "\<exists>md'. assign rec env a targetVal canSet targetKey source sourceKey md
            = Returns (targetVal, None, md')
          \<and> run (Suc n) env (CAssign a targetVal canSet targetKey source sourceKey) md
            = Returns (targetVal, None, md')
          \<and> (md' = md \<or> fst (shouldSkipKey env a targetKey sourceKey md))"
proof -
  have ns: "normalizeSource source = None" using assms by (rule normalizeSource_absent)
  obtain b md1 where s: "shouldSkipKey env a targetKey sourceKey md = (b, md1)"
    by (cases "shouldSkipKey env a targetKey sourceKey md")
  have m: "\<not> b \<Longrightarrow> md1 = md"
    using s by (auto simp: shouldSkipKey_def split: if_splits variant.splits)
  have "\<And>r. assign r env a targetVal canSet targetKey source sourceKey md
            = Returns (targetVal, None, md1)"
    using s ns by (cases b) (simp_all add: assign_def)
  then show ?thesis using s m by (auto simp: step_def)
qed

lemma structFromMapStep_missing_key:
  assumes "convertFieldName rec env keyT mapKey (actualName f) = Returns (k, None)"
    and "mapIndex k sourceEntries = None"
  shows "structFromMapStep rec env a keyT targetKey sourceKey sourceEntries
           (root, mapKey, unused, errors, md) f
         = Returns (root, k, unused, errors,
                    addMetaUnset md (newChild targetKey KStruct (displayName f)))"
  using assms by (simp add: structFromMapStep_def bindO_def)

text \<open>
  C1. The second variant tests for an absent source before it unwraps a Value of kind
  Interface. An element of a \<^verbatim>\<open>map[string]any\<close> arrives as such a Value, so a nil element
  passes the test, is unwrapped to the zero Value and reaches the handler of the target
  kind: decoding \<^verbatim>\<open>{"x": nil}\<close> into \<^verbatim>\<open>T{X: 5}\<close> panics in \<^verbatim>\<open>assignInt\<close>, where the first
  variant returns success and leaves \<^verbatim>\<open>X\<close> as it was.
\<close>

theorem assign_nil_map_value_panics:
  "run 4 (sampleEnv V2) (CAssign (defaultAssigner (sampleEnv V2)) sampleT True []
      (Some (VMap TString TInterface (Some [(VString ''x'', VInterface None)]))) []) None
   = Panics
   \<and> run 4 (sampleEnv V1) (CAssign (defaultAssigner (sampleEnv V1)) sampleT True []
      (Some (VMap TString TInterface (Some [(VString ''x'', VInterface None)]))) []) None
   = Returns (sampleT, None, None)"
  by code_simp




lemma sliceStep_length:
  "sliceStep rec env a t tk sk (tgt, errs, md) (i, x) = Returns (tgt', errs', md')
   \<Longrightarrow> length tgt' = max (length tgt) (Suc i)"
  by (auto simp: sliceStep_def bindO_def Let_def split: prod.splits bool.splits outcome.splits)

lemma sliceLoop_length:
  "foldO (sliceStep rec env a t tk sk) (zip [k..<k + length xs] xs) (tgt, errs, md)
     = Returns (tgt', errs', md')
   \<Longrightarrow> length tgt' = (if xs = [] then length tgt else max (length tgt) (k + length xs))"
proof (induction xs arbitrary: k tgt errs md)
  case Nil
  then show ?case by simp
next
  case (Cons x xs)
  have z: "zip [k..<k + length (x # xs)] (x # xs) = (k, x) # zip [Suc k..<Suc k + length xs] xs"
  proof -
    have "[k..<k + length (x # xs)] = k # [Suc k..<Suc k + length xs]"
      by (subst upt_rec) simp
    then show ?thesis by simp
  qed
  from Cons.prems obtain tgt1 errs1 md1 where
    s: "sliceStep rec env a t tk sk (tgt, errs, md) (k, x) = Returns (tgt1, errs1, md1)"
    and r: "foldO (sliceStep rec env a t tk sk) (zip [Suc k..<Suc k + length xs] xs)
              (tgt1, errs1, md1) = Returns (tgt', errs', md')"
    unfolding z by (auto simp: bindO_def split: outcome.splits)
  from sliceStep_length [OF s] have l1: "length tgt1 = max (length tgt) (Suc k)" .
  from Cons.IH [OF r] l1 show ?case by (auto simp: max_def)
qed

text \<open>
  C9. A slice target and a slice or array source: a nil source slice is a no-op;
  otherwise, whenever the assignment returns (with or without collected errors), the
  target is a non-nil slice of exactly the length of the source: a nil target is
  allocated at that length, a longer target is cut to it, a shorter one grows to it.
\<close>

theorem assignSlice_length:
  assumes kind: "kindOf sv = KSlice \<or> kindOf sv = KArray"
  shows "(kindOf sv = KSlice \<and> isNilVal sv \<longrightarrow>
            assignSlice rec env a (VSlice t xs) targetKey (Some sv) sourceKey md
              = Returns (VSlice t xs, None, md))
       \<and> (\<not> (kindOf sv = KSlice \<and> isNilVal sv) \<longrightarrow>
            assignSlice rec env a (VSlice t xs) targetKey (Some sv) sourceKey md
              = Returns (tv', err, md')
            \<longrightarrow> (\<exists>ys. tv' = VSlice t (Some ys) \<and> length ys = length (seqElems sv)))"
proof (intro conjI impI)
  have notptr: "indirect (Some sv) = Some sv"
    using kind by (cases sv) (auto simp: indirect_def kindOf_def)
  have ks: "rkind (Some sv) = kindOf sv" by (simp add: rkind_def)
  {
    assume "kindOf sv = KSlice \<and> isNilVal sv"
    then show "assignSlice rec env a (VSlice t xs) targetKey (Some sv) sourceKey md
              = Returns (VSlice t xs, None, md)"
      using notptr ks by (auto simp: assignSlice_def Let_def isArraySlice_def kindOf_def)
  }
  {
    assume nn: "\<not> (kindOf sv = KSlice \<and> isNilVal sv)"
      and r: "assignSlice rec env a (VSlice t xs) targetKey (Some sv) sourceKey md
              = Returns (tv', err, md')"
    let ?n = "length (seqElems sv)"
    let ?init = "case xs of None \<Rightarrow> replicate ?n (zero t)
                 | Some ys \<Rightarrow> if length ys > ?n then take ?n ys else ys"
    have li: "length ?init \<le> ?n" by (auto split: option.splits)
    from r nn kind notptr ks obtain elems errors where
      f: "foldO (sliceStep rec env a t targetKey sourceKey) (enumerate0 (seqElems sv))
            (?init, [], md) = Returns (elems, errors, md')"
      and tv: "tv' = VSlice t (Some elems)"
      by (auto simp: assignSlice_def Let_def isArraySlice_def kindOf_def elemType_def bindO_def
          split: outcome.splits option.splits if_splits)
    have "length elems = (if seqElems sv = [] then length ?init else max (length ?init) ?n)"
      using sliceLoop_length [of rec env a t targetKey sourceKey 0 "seqElems sv" ?init "[]" md
          elems errors md'] f
      by (simp add: enumerate0_def)
    then have "length elems = ?n" using li by (auto simp: max_def split: if_splits)
    then show "\<exists>ys. tv' = VSlice t (Some ys) \<and> length ys = length (seqElems sv)"
      using tv by simp
  }
qed

theorem assignSlice_length_witness:
  "(kindOf (VSlice (TInt KInt) (Some [VInt KInt 7])) = KSlice
      \<or> kindOf (VSlice (TInt KInt) (Some [VInt KInt 7])) = KArray)
   \<and> \<not> (kindOf (VSlice (TInt KInt) (Some [VInt KInt 7])) = KSlice
          \<and> isNilVal (VSlice (TInt KInt) (Some [VInt KInt 7])))
   \<and> assignSlice (run 2 (sampleEnv V1)) (sampleEnv V1) (defaultAssigner (sampleEnv V1))
        (VSlice (TInt KInt) (Some [VInt KInt 1, VInt KInt 2, VInt KInt 3])) ''S''
        (Some (VSlice (TInt KInt) (Some [VInt KInt 7]))) ''s'' None
      = Returns (VSlice (TInt KInt) (Some [VInt KInt 7]), None, None)
   \<and> length [VInt KInt 7] = length (seqElems (VSlice (TInt KInt) (Some [VInt KInt 7])))"
proof -
  let ?sv = "VSlice (TInt KInt) (Some [VInt KInt 7])"
  have k: "kindOf ?sv = KSlice \<or> kindOf ?sv = KArray" by (simp add: kindOf_def)
  have n: "\<not> (kindOf ?sv = KSlice \<and> isNilVal ?sv)" by (simp add: isNilVal_def)
  have e: "assignSlice (run 2 (sampleEnv V1)) (sampleEnv V1) (defaultAssigner (sampleEnv V1))
        (VSlice (TInt KInt) (Some [VInt KInt 1, VInt KInt 2, VInt KInt 3])) ''S''
        (Some ?sv) ''s'' None
      = Returns (VSlice (TInt KInt) (Some [VInt KInt 7]), None, None)"
    by code_simp
  from assignSlice_length [OF k, THEN conjunct2, rule_format, OF n e]
  have "\<exists>ys. VSlice (TInt KInt) (Some [VInt KInt 7]) = VSlice (TInt KInt) (Some ys)
          \<and> length ys = length (seqElems ?sv)" .
  then have "length [VInt KInt 7] = length (seqElems ?sv)" by auto
  with k n e show ?thesis by blast
qed

text \<open>
  C6 as stated fails in both variants: assigning a nil map to a pointer target is a nil
  assignment, \<^verbatim>\<open>assignPtr\<close> answers \<^verbatim>\<open>true\<close> for \<^verbatim>\<open>addMetaKey\<close>, and the path is appended
  to \<open>Keys\<close>.
\<close>

theorem nil_pointer_assignment_records_key_counterexample:
  "run 2 (sampleEnv V2) (CAssign (defaultAssigner (sampleEnv V2))
      (VPtr (TMap TString TString) (Some (VMap TString TString (Some [])))) True ''P''
      (Some (VMap TString TString None)) ''p'') emptyMeta
   = Returns (VPtr (TMap TString TString) None, None,
              Some \<lparr>Keys = [''P''], Unused = [], Unset = []\<rparr>)"
  by code_simp

lemma assign_after_dispatch:
  assumes "shouldSkipKey env a targetKey sourceKey md = (False, md)"
    and "normalizeSource source = Some s"
    and "\<not> (SkipSameValues (config a) \<and> deepEqual env targetVal (Some s))"
    and "supported env (targetKindOf env targetVal)"
  shows "assign rec env a targetVal canSet targetKey source sourceKey md
         = bindO (dispatch rec env a targetVal canSet targetKey (unwrapInterface env (Some s))
                    sourceKey md)
             (\<lambda>((tv, err, md2), flag).
                Returns (tv, err, if flag \<and> (variant env = V1 \<or> err = None)
                                  then addMetaKey md2 targetKey else md2))"
  using assms by (auto simp: assign_def Let_def)

lemma dispatch_pointer:
  "kindOf targetVal = KPointer \<Longrightarrow>
   dispatch rec env a targetVal canSet targetKey source sourceKey md
   = assignPtr rec env a targetVal canSet targetKey source sourceKey md"
  by (cases "variant env")
     (auto simp: dispatch_def Let_def targetKindOf_def getKind_def caseInt_def caseUint_def
        caseFloat_def isInt_def isUint_def isFloat_def)

lemma assignPtr_flag:
  "assignPtr rec env a targetVal canSet targetKey source sourceKey md = Returns (r, flag)
   \<Longrightarrow> flag = sourceIsNil env source"
  by (auto simp: assignPtr_def bindO_def Let_def
      split: val.splits if_splits outcome.splits option.splits prod.splits)

lemma assignPtr_nil:
  "sourceIsNil env source \<Longrightarrow>
   assignPtr rec env a (VPtr t p) canSet targetKey source sourceKey md
   = Returns ((if p \<noteq> None \<and> canSet then VPtr t None else VPtr t p, None, md), True)"
  by (simp add: assignPtr_def)

text \<open>
  C6, amended. Take a step that reaches the switch on the target kind, and let the shape
  handler return the value, the error, the metadata and the flag \<^verbatim>\<open>addMetaKey\<close>. When
  the handler succeeds, the step appends the target path to \<open>Keys\<close> exactly when the flag
  is set. In the second variant, when the handler returns an error the step appends
  nothing. The flag is set by every handler except the pointer handler; for a pointer
  target it is set exactly when the source is nil, that is for a nil assignment (which
  succeeds and leaves the metadata to the step, so the path is recorded), and it is
  cleared when the pointee was assigned (the nested step on the pointee has recorded the
  path).
\<close>

theorem assign_records_key:
  assumes skip: "shouldSkipKey env a targetKey sourceKey md = (False, md)"
    and src: "normalizeSource source = Some s"
    and same: "\<not> (SkipSameValues (config a) \<and> deepEqual env targetVal (Some s))"
    and sup: "supported env (targetKindOf env targetVal)"
    and disp: "dispatch rec env a targetVal canSet targetKey (unwrapInterface env (Some s))
                 sourceKey md = Returns ((tv, err, md2), flag)"
  shows "(err = None \<longrightarrow>
            assign rec env a targetVal canSet targetKey source sourceKey md
              = Returns (tv, None, if flag then addMetaKey md2 targetKey else md2))
       \<and> (variant env = V2 \<and> err \<noteq> None \<longrightarrow>
            assign rec env a targetVal canSet targetKey source sourceKey md
              = Returns (tv, err, md2))
       \<and> (kindOf targetVal \<noteq> KPointer \<longrightarrow> flag)
       \<and> (kindOf targetVal = KPointer \<longrightarrow>
            flag = sourceIsNil env (unwrapInterface env (Some s))
            \<and> (flag \<longrightarrow> err = None \<and> md2 = md))"
proof -
  note a = assign_after_dispatch [OF skip src same sup, of rec canSet]
  have p1: "err = None \<longrightarrow>
            assign rec env a targetVal canSet targetKey source sourceKey md
              = Returns (tv, None, if flag then addMetaKey md2 targetKey else md2)"
    using a disp by (simp add: bindO_def)
  have p2: "variant env = V2 \<and> err \<noteq> None \<longrightarrow>
            assign rec env a targetVal canSet targetKey source sourceKey md
              = Returns (tv, err, md2)"
    using a disp by (auto simp: bindO_def)
  have p3: "kindOf targetVal \<noteq> KPointer \<longrightarrow> flag"
  proof
    assume np: "kindOf targetVal \<noteq> KPointer"
    have tk: "targetKindOf env targetVal \<noteq> KPointer"
      using np by (cases "variant env") (auto simp: targetKindOf_def getKind_def split: if_splits)
    show flag
      using disp tk
      by (auto simp: dispatch_def Let_def scalar_def plain_def bindO_def
          split: if_splits outcome.splits prod.splits)
  qed
  have p4: "kindOf targetVal = KPointer \<longrightarrow>
            flag = sourceIsNil env (unwrapInterface env (Some s))
            \<and> (flag \<longrightarrow> err = None \<and> md2 = md)"
  proof
    assume kp: "kindOf targetVal = KPointer"
    from disp dispatch_pointer [OF kp] have ap:
      "assignPtr rec env a targetVal canSet targetKey (unwrapInterface env (Some s)) sourceKey md
        = Returns ((tv, err, md2), flag)" by simp
    from assignPtr_flag [OF ap] have f: "flag = sourceIsNil env (unwrapInterface env (Some s))" .
    obtain t p where tv: "targetVal = VPtr t p"
      using ap by (cases targetVal) (auto simp: assignPtr_def)
    show "flag = sourceIsNil env (unwrapInterface env (Some s))
            \<and> (flag \<longrightarrow> err = None \<and> md2 = md)"
      using f ap assignPtr_nil [of env "unwrapInterface env (Some s)" rec a t p canSet targetKey sourceKey md]
      by (auto simp: tv)
  qed
  from p1 p2 p3 p4 show ?thesis by blast
qed

theorem assign_records_key_witness:
  "shouldSkipKey (sampleEnv V2) (defaultAssigner (sampleEnv V2)) ''P'' ''p'' emptyMeta
     = (False, emptyMeta)
   \<and> normalizeSource (Some (VMap TString TString None)) = Some (VMap TString TString None)
   \<and> \<not> (SkipSameValues (config (defaultAssigner (sampleEnv V2)))
          \<and> deepEqual (sampleEnv V2) samplePtr (Some (VMap TString TString None)))
   \<and> supported (sampleEnv V2) (targetKindOf (sampleEnv V2) samplePtr)
   \<and> dispatch (run 1 (sampleEnv V2)) (sampleEnv V2) (defaultAssigner (sampleEnv V2)) samplePtr
        True ''P'' (unwrapInterface (sampleEnv V2) (Some (VMap TString TString None))) ''p''
        emptyMeta
      = Returns ((VPtr (TMap TString TString) None, None, emptyMeta), True)
   \<and> assign (run 1 (sampleEnv V2)) (sampleEnv V2) (defaultAssigner (sampleEnv V2)) samplePtr
        True ''P'' (Some (VMap TString TString None)) ''p'' emptyMeta
      = Returns (VPtr (TMap TString TString) None, None, addMetaKey emptyMeta ''P'')"
proof -
  have h1: "shouldSkipKey (sampleEnv V2) (defaultAssigner (sampleEnv V2)) ''P'' ''p'' emptyMeta
     = (False, emptyMeta)" by code_simp
  have h2: "normalizeSource (Some (VMap TString TString None))
     = Some (VMap TString TString None)" by code_simp
  have h3: "\<not> (SkipSameValues (config (defaultAssigner (sampleEnv V2)))
          \<and> deepEqual (sampleEnv V2) samplePtr (Some (VMap TString TString None)))"
    by code_simp
  have h4: "supported (sampleEnv V2) (targetKindOf (sampleEnv V2) samplePtr)" by code_simp
  have h5: "dispatch (run 1 (sampleEnv V2)) (sampleEnv V2) (defaultAssigner (sampleEnv V2))
        samplePtr True ''P'' (unwrapInterface (sampleEnv V2) (Some (VMap TString TString None)))
        ''p'' emptyMeta
      = Returns ((VPtr (TMap TString TString) None, None, emptyMeta), True)" by code_simp
  from assign_records_key [OF h1 h2 h3 h4 h5] h1 h2 h3 h4 h5 show ?thesis by simp
qed

lemma uint_take_bit_minus:
  "b \<le> 64 \<Longrightarrow> uint (take_bit b (- (n::64 word))) = (- uint n) mod 2 ^ b"
proof -
  assume b: "b \<le> 64"
  have d: "(2::int) ^ b dvd 2 ^ 64" using b by (rule le_imp_power_dvd)
  have m: "uint (- n) = (- uint n) mod 2 ^ 64"
    by (simp add: uint_word_arith_bintrs take_bit_eq_mod)
  have "uint (take_bit b (- n)) = take_bit b (uint (- n))" by (rule unsigned_take_bit_eq)
  also have "\<dots> = uint (- n) mod 2 ^ b" by (simp only: take_bit_eq_mod)
  also have "\<dots> = ((- uint n) mod 2 ^ 64) mod 2 ^ b" by (simp only: m)
  also have "\<dots> = (- uint n) mod 2 ^ b" by (rule mod_mod_cancel [OF d])
  finally show ?thesis .
qed

text \<open>
  C3 as stated fails for a negative float under weak typing: the stored value is what the
  implementation's \<^verbatim>\<open>uint64(f)\<close> yields, which Go does not fix for a float that \<^verbatim>\<open>uint64\<close>
  cannot represent. Where the conversion saturates, \<^verbatim>\<open>-1.0\<close> is stored in a \<^verbatim>\<open>uint8\<close> as 0,
  and the two's-complement conversion of \<open>-1\<close> at that width is 255.
\<close>

theorem negative_float_saturates_counterexample:
  "floatNegative 0xBFF0000000000000
   \<and> assignUint (exampleEnv V2) (weakAssigner (exampleEnv V2)) (VUint KUint8 7) ''u''
        (Some (VFloat KFloat64 0xBFF0000000000000))
      = Returns (VUint KUint8 0, None)
   \<and> take_bit 8 (- 1 :: 64 word) = 255"
  by code_simp

text \<open>
  C3, amended. An unsigned-integer target and a negative source. Under strict typing a
  negative signed integer and a negative float both fail with the overflow error and
  leave the target as it was. Under weak typing the assignment succeeds. A negative
  signed integer is stored converted to unsigned in two's complement at the width of the
  target, that is \<open>sint i mod 2 ^ bits\<close>. A negative float is stored as Go's \<^verbatim>\<open>uint64(f)\<close>
  cut to the width of the target: that is 0 for a float above \<open>-1\<close>, and for any other
  negative float the value that the implementation's conversion yields; where the
  implementation converts through the signed integer (and the integer part \<open>n\<close> of the
  float is at most \<open>2 ^ 63\<close>) this is the two's complement of \<open>- n\<close> at the width of the
  target.
\<close>

theorem assignUint_negative_source:
  assumes "wordSize env \<le> 64"
  shows "(isInt ks \<and> i <s 0 \<longrightarrow>
           assignUint env a (VUint kt w0) tk (Some (VInt ks i)) =
             (if WeaklyTypedInput (config a)
              then Returns (VUint kt (take_bit (bitsOf env kt) i), None)
              else Returns (VUint kt w0, Some (ErrorMsg (MsgOverflowsUint tk)))))
       \<and> uint (take_bit (bitsOf env kt) i) = sint i mod 2 ^ bitsOf env kt
       \<and> (isFloat kf \<and> floatNegative f \<longrightarrow>
           assignUint env a (VUint kt w0) tk (Some (VFloat kf f)) =
             (if WeaklyTypedInput (config a)
              then Returns (VUint kt (take_bit (bitsOf env kt) (uint64OfFloat env f)), None)
              else Returns (VUint kt w0, Some (ErrorMsg (MsgOverflowsUint tk)))))
       \<and> (floatNegative f \<and> floatIntPart f = Some 0 \<longrightarrow> uint64OfFloat env f = 0)
       \<and> (floatNegative f \<and> floatIntPart f \<noteq> Some 0 \<longrightarrow>
           uint64OfFloat env f = floatToUint64 env f)
       \<and> (floatNegative f \<and> floatIntPart f = Some n \<and> n \<noteq> 0 \<and> n \<le> push_bit 63 1
            \<and> floatToUint64 env f = throughSigned f \<longrightarrow>
           uint (take_bit (bitsOf env kt) (uint64OfFloat env f))
             = (- uint n) mod 2 ^ bitsOf env kt)"
proof (intro conjI impI)
  assume "isInt ks \<and> i <s 0"
  then show "assignUint env a (VUint kt w0) tk (Some (VInt ks i)) =
             (if WeaklyTypedInput (config a)
              then Returns (VUint kt (take_bit (bitsOf env kt) i), None)
              else Returns (VUint kt w0, Some (ErrorMsg (MsgOverflowsUint tk))))"
    by (simp add: assignUint_def indirect_def kindOf_def wordOf_def fails_def ok_def
        setUint_def bindO_def)
next
  show "uint (take_bit (bitsOf env kt) i) = sint i mod 2 ^ bitsOf env kt"
    using assms by (intro twos_complement_take_bit bitsOf_le)
next
  assume "isFloat kf \<and> floatNegative f"
  then show "assignUint env a (VUint kt w0) tk (Some (VFloat kf f)) =
             (if WeaklyTypedInput (config a)
              then Returns (VUint kt (take_bit (bitsOf env kt) (uint64OfFloat env f)), None)
              else Returns (VUint kt w0, Some (ErrorMsg (MsgOverflowsUint tk))))"
    by (auto simp add: assignUint_def indirect_def kindOf_def wordOf_def fails_def ok_def
        setUint_def bindO_def isInt_def isUint_def isFloat_def)
next
  assume "floatNegative f \<and> floatIntPart f = Some 0"
  then show "uint64OfFloat env f = 0" by (simp add: uint64OfFloat_def)
next
  assume "floatNegative f \<and> floatIntPart f \<noteq> Some 0"
  then show "uint64OfFloat env f = floatToUint64 env f"
    by (auto simp: uint64OfFloat_def floatNegative_def split: option.splits)
next
  assume h: "floatNegative f \<and> floatIntPart f = Some n \<and> n \<noteq> 0 \<and> n \<le> push_bit 63 1
            \<and> floatToUint64 env f = throughSigned f"
  then have "uint64OfFloat env f = - n"
    by (simp add: uint64OfFloat_def throughSigned_def floatNegative_def)
  then show "uint (take_bit (bitsOf env kt) (uint64OfFloat env f))
             = (- uint n) mod 2 ^ bitsOf env kt"
    using uint_take_bit_minus [OF bitsOf_le [OF assms], of kt n] by simp
qed

theorem assignUint_negative_source_witness:
  "wordSize (signedEnv V1) \<le> 64 \<and> isInt KInt \<and> (-1 :: 64 word) <s 0
   \<and> assignUint (signedEnv V1) (weakAssigner (signedEnv V1)) (VUint KUint8 0) ''n''
        (Some (VInt KInt (-1))) = Returns (VUint KUint8 255, None)
   \<and> assignUint (signedEnv V1) (defaultAssigner (signedEnv V1)) (VUint KUint8 0) ''n''
        (Some (VInt KInt (-1))) = Returns (VUint KUint8 0, Some (ErrorMsg (MsgOverflowsUint ''n'')))
   \<and> isFloat KFloat64 \<and> floatNegative 0xC000000000000000
   \<and> floatIntPart 0xC000000000000000 = Some 2
   \<and> assignUint (signedEnv V1) (defaultAssigner (signedEnv V1)) (VUint KUint8 0) ''n''
        (Some (VFloat KFloat64 0xC000000000000000))
       = Returns (VUint KUint8 0, Some (ErrorMsg (MsgOverflowsUint ''n'')))
   \<and> assignUint (signedEnv V1) (weakAssigner (signedEnv V1)) (VUint KUint8 0) ''n''
        (Some (VFloat KFloat64 0xC000000000000000))
       = Returns (VUint KUint8 254, None)
   \<and> uint (take_bit (bitsOf (signedEnv V1) KUint8)
             (uint64OfFloat (signedEnv V1) 0xC000000000000000)) = 254"
proof -
  have w: "wordSize (signedEnv V1) \<le> 64" by code_simp
  have f: "floatNegative 0xC000000000000000" by code_simp
  have ip: "floatIntPart 0xC000000000000000 = Some 2" by code_simp
  have i: "isInt KInt \<and> (-1 :: 64 word) <s 0" by code_simp
  have fl: "isFloat KFloat64" by code_simp
  have ts: "floatToUint64 (signedEnv V1) 0xC000000000000000 = throughSigned 0xC000000000000000"
    by (simp add: signedEnv_def)
  have n2: "(2::64 word) \<noteq> 0 \<and> (2::64 word) \<le> push_bit 63 1" by code_simp
  have wk: "WeaklyTypedInput (config (weakAssigner (signedEnv V1)))
     \<and> \<not> WeaklyTypedInput (config (defaultAssigner (signedEnv V1)))" by code_simp
  have b: "bitsOf (signedEnv V1) KUint8 = 8" by (simp add: bitsOf_def)
  have tb: "take_bit 8 (-1 :: 64 word) = 255" by code_simp
  have u: "uint64OfFloat (signedEnv V1) 0xC000000000000000 = - 2" by code_simp
  have tb2: "take_bit 8 (-2 :: 64 word) = 254" by code_simp
  note t1 = assignUint_negative_source [OF w, of KInt "-1" "weakAssigner (signedEnv V1)" KUint8 0
      "''n''" KFloat64 "0xC000000000000000" 2]
  note t2 = assignUint_negative_source [OF w, of KInt "-1" "defaultAssigner (signedEnv V1)" KUint8 0
      "''n''" KFloat64 "0xC000000000000000" 2]
  from t1 i wk b tb have c1: "assignUint (signedEnv V1) (weakAssigner (signedEnv V1)) (VUint KUint8 0) ''n''
        (Some (VInt KInt (-1))) = Returns (VUint KUint8 255, None)" by simp
  from t2 i wk have c2: "assignUint (signedEnv V1) (defaultAssigner (signedEnv V1)) (VUint KUint8 0) ''n''
        (Some (VInt KInt (-1))) = Returns (VUint KUint8 0, Some (ErrorMsg (MsgOverflowsUint ''n'')))" by simp
  from t2 fl f wk have c3: "assignUint (signedEnv V1) (defaultAssigner (signedEnv V1)) (VUint KUint8 0) ''n''
        (Some (VFloat KFloat64 0xC000000000000000))
       = Returns (VUint KUint8 0, Some (ErrorMsg (MsgOverflowsUint ''n'')))" by simp
  from t1 fl f wk b u tb2 have c4: "assignUint (signedEnv V1) (weakAssigner (signedEnv V1)) (VUint KUint8 0) ''n''
        (Some (VFloat KFloat64 0xC000000000000000))
       = Returns (VUint KUint8 254, None)" by simp
  from t1 f ip n2 ts have "uint (take_bit (bitsOf (signedEnv V1) KUint8)
             (uint64OfFloat (signedEnv V1) 0xC000000000000000))
         = (- uint (2::64 word)) mod 2 ^ bitsOf (signedEnv V1) KUint8" by blast
  then have c5: "uint (take_bit (bitsOf (signedEnv V1) KUint8)
             (uint64OfFloat (signedEnv V1) 0xC000000000000000)) = 254" by (simp add: b)
  from w i fl f ip c1 c2 c3 c4 c5 show ?thesis by blast
qed

lemma floatEq_sym: "floatEq x y \<Longrightarrow> floatEq y x"
  by (auto simp: floatEq_def)

lemma floatEq_trans: "floatEq x y \<Longrightarrow> floatEq y z \<Longrightarrow> floatEq x z"
  by (auto simp: floatEq_def)

lemma keyEq_VInterface:
  "keyEq (VInterface x) (VInterface y) = rel_option keyEq x y"
  by (cases x; cases y) simp_all

lemma keyEq_VArray:
  "keyEq (VArray t xs) (VArray t' ys) = (t = t' \<and> list_all2 keyEq xs ys)"
  by (simp add: list_all2_map1)

lemma keyEq_VStruct:
  "keyEq (VStruct n fs) (VStruct n' gs)
     = (n = n' \<and> list_all2 (\<lambda>fx gy. fst fx = fst gy \<and> keyEq (snd fx) (snd gy)) fs gs)"
  by (simp add: list_all2_map1)

lemma list_all2_sym_on:
  assumes "list_all2 P xs ys" and "\<And>x y. x \<in> set xs \<Longrightarrow> P x y \<Longrightarrow> Q y x"
  shows "list_all2 Q ys xs"
  using assms by (induction xs ys rule: list_all2_induct) auto

lemma list_all2_trans_on:
  assumes "list_all2 P xs ys" and "list_all2 Q ys zs"
    and "\<And>x y z. x \<in> set xs \<Longrightarrow> P x y \<Longrightarrow> Q y z \<Longrightarrow> R x z"
  shows "list_all2 R xs zs"
  using assms
proof (induction xs ys arbitrary: zs rule: list_all2_induct)
  case Nil
  then show ?case by simp
next
  case (Cons x xs y ys)
  then show ?case by (cases zs) auto
qed

lemma keyEq_sym: "keyEq x y \<Longrightarrow> keyEq y x"
proof (induction x arbitrary: y)
  case (VFloat k w)
  then show ?case by (cases y) (auto dest: floatEq_sym)
next
  case (VInterface x)
  from VInterface.prems obtain x' where y: "y = VInterface x'" by (cases y) auto
  from VInterface.prems y have e1: "rel_option keyEq x x'"
    by (simp only: keyEq_VInterface)
  have "rel_option keyEq x' x"
  proof (cases x)
    case None
    with e1 show ?thesis by (cases x') auto
  next
    case (Some a)
    with e1 obtain b where b: "x' = Some b" "keyEq a b" by (cases x') auto
    from VInterface.IH [of a b] Some b show ?thesis by simp
  qed
  then show ?case by (simp only: y keyEq_VInterface)
next
  case (VStruct n fs)
  then obtain gs where y: "y = VStruct n gs"
    and l: "list_all2 (\<lambda>fx gy. fst fx = fst gy \<and> keyEq (snd fx) (snd gy)) fs gs"
    by (cases y) (auto simp: list_all2_map1)
  have "list_all2 (\<lambda>gy fx. fst gy = fst fx \<and> keyEq (snd gy) (snd fx)) gs fs"
  proof (rule list_all2_sym_on [OF l])
    fix fx gy
    assume "fx \<in> set fs" and "fst fx = fst gy \<and> keyEq (snd fx) (snd gy)"
    moreover have "snd fx \<in> Basic_BNFs.snds fx" by (simp add: snds.simps)
    ultimately show "fst gy = fst fx \<and> keyEq (snd gy) (snd fx)"
      using VStruct.IH [of fx "snd fx" "snd gy"] by simp
  qed
  then show ?case by (simp add: y list_all2_map1)
next
  case (VArray t xs)
  then obtain ys where y: "y = VArray t ys" and l: "list_all2 keyEq xs ys"
    by (cases y) (auto simp: list_all2_map1)
  have "list_all2 keyEq ys xs"
    by (rule list_all2_sym_on [OF l]) (use VArray.IH in auto)
  then show ?case by (simp add: y list_all2_map1)
qed auto

lemma keyEq_trans: "keyEq x y \<Longrightarrow> keyEq y z \<Longrightarrow> keyEq x z"
proof (induction x arbitrary: y z)
  case (VFloat k w)
  from VFloat.prems(1) obtain w' where y: "y = VFloat k w'" and e1: "floatEq w w'"
    by (cases y) auto
  from VFloat.prems(2) y obtain w'' where z: "z = VFloat k w''" and e2: "floatEq w' w''"
    by (cases z) auto
  show ?case using floatEq_trans [OF e1 e2] by (simp add: z)
next
  case (VInterface x)
  from VInterface.prems(1) obtain x' where y: "y = VInterface x'" by (cases y) auto
  from VInterface.prems(2) y obtain x'' where z: "z = VInterface x''" by (cases z) auto
  from VInterface.prems(1) y have e1: "rel_option keyEq x x'"
    by (simp only: keyEq_VInterface)
  from VInterface.prems(2) y z have e2: "rel_option keyEq x' x''"
    by (simp only: keyEq_VInterface)
  have "rel_option keyEq x x''"
  proof (cases x)
    case None
    with e1 e2 show ?thesis by (cases x'; cases x'') auto
  next
    case (Some a)
    with e1 obtain b where b: "x' = Some b" "keyEq a b" by (cases x') auto
    with e2 obtain c where c: "x'' = Some c" "keyEq b c" by (cases x'') auto
    from VInterface.IH [of a b c] Some b c show ?thesis by simp
  qed
  then show ?case by (simp only: z keyEq_VInterface)
next
  case (VStruct n fs)
  from VStruct.prems(1) obtain gs where y: "y = VStruct n gs"
    and l1: "list_all2 (\<lambda>fx gy. fst fx = fst gy \<and> keyEq (snd fx) (snd gy)) fs gs"
    by (cases y) (auto simp: list_all2_map1)
  from VStruct.prems(2) y obtain hs where z: "z = VStruct n hs"
    and l2: "list_all2 (\<lambda>fx gy. fst fx = fst gy \<and> keyEq (snd fx) (snd gy)) gs hs"
    by (cases z) (auto simp: list_all2_map1)
  have "list_all2 (\<lambda>fx gy. fst fx = fst gy \<and> keyEq (snd fx) (snd gy)) fs hs"
  proof (rule list_all2_trans_on [OF l1 l2])
    fix a b c
    assume "a \<in> set fs" and "fst a = fst b \<and> keyEq (snd a) (snd b)"
      and "fst b = fst c \<and> keyEq (snd b) (snd c)"
    moreover have "snd a \<in> Basic_BNFs.snds a" by (simp add: snds.simps)
    ultimately show "fst a = fst c \<and> keyEq (snd a) (snd c)"
      using VStruct.IH [of a "snd a" "snd b" "snd c"] by simp
  qed
  then show ?case by (simp add: z list_all2_map1)
next
  case (VArray t xs)
  from VArray.prems(1) obtain ys where y: "y = VArray t ys" and l1: "list_all2 keyEq xs ys"
    by (cases y) (auto simp: list_all2_map1)
  from VArray.prems(2) y obtain zs where z: "z = VArray t zs" and l2: "list_all2 keyEq ys zs"
    by (cases z) (auto simp: list_all2_map1)
  have "list_all2 keyEq xs zs"
    by (rule list_all2_trans_on [OF l1 l2]) (use VArray.IH in auto)
  then show ?case by (simp add: z list_all2_map1)
qed auto

lemma mapIndex_setMapIndex:
  "mapIndex k (setMapIndex k' v es) = (if keyEq k' k then Some v else mapIndex k es)"
proof (induction es)
  case Nil
  then show ?case by simp
next
  case (Cons e es)
  obtain k0 v0 where e: "e = (k0, v0)" by (cases e)
  show ?case
  proof (cases "keyEq k0 k'")
    case True
    have "\<not> keyEq k' k \<Longrightarrow> \<not> keyEq k0 k"
      using True keyEq_sym [of k0 k'] keyEq_trans [of k' k0 k] by blast
    then show ?thesis using True by (auto simp: e)
  next
    case False
    have "keyEq k0 k \<Longrightarrow> \<not> keyEq k' k"
      using False keyEq_sym [of k' k] keyEq_trans [of k0 k k'] by blast
    then show ?thesis using False Cons.IH by (auto simp: e)
  qed
qed

lemma appendErrors_append: "appendErrors errors e = errors @ appendErrors [] e"
  by (cases e) (simp_all add: appendErrors_def)

lemma collect_append: "collect errors err = errors @ collect [] err"
  by (cases err) (simp_all add: collect_def appendErrors_append [of errors])

lemma rounds_complete:
  "foldO f xs s = Returns t \<Longrightarrow>
     map (\<lambda>(s1, x, s2). x) (rounds f xs s) = xs
     \<and> (\<forall>(s1, x, s2) \<in> set (rounds f xs s). f s1 x = Returns s2)"
proof (induction xs arbitrary: s)
  case Nil
  then show ?case by simp
next
  case (Cons x xs)
  then obtain s' where s: "f s x = Returns s'" and r: "foldO f xs s' = Returns t"
    by (auto simp: bindO_def split: outcome.splits)
  from Cons.IH [OF r] s show ?case by simp
qed

lemma rounds_errors:
  assumes step: "\<And>s x s'. f s x = Returns s' \<Longrightarrow> errs s' = errs s @ msgs s x"
  shows "foldO f xs s = Returns t \<Longrightarrow>
     errs t = errs s @ concat (map (\<lambda>(s1, x, s2). msgs s1 x) (rounds f xs s))"
proof (induction xs arbitrary: s)
  case Nil
  then show ?case by simp
next
  case (Cons x xs)
  then obtain s' where s: "f s x = Returns s'" and r: "foldO f xs s' = Returns t"
    by (auto simp: bindO_def split: outcome.splits)
  from Cons.IH [OF r] step [OF s] s show ?case by simp
qed

lemma childMsgs_Returns: "childMsgs (Returns (v, err, md)) = collect [] err"
  by (simp add: childMsgs_def)

lemma sliceStep_errors:
  assumes "sliceStep rec env a elemT tk sk st ix = Returns st'"
  shows "fst (snd st') = fst (snd st) @ sliceRoundMsgs rec env a elemT tk sk st ix"
proof -
  obtain tgt errors md where st: "st = (tgt, errors, md)" by (cases st)
  obtain i x where ix: "ix = (i, x)" by (cases ix)
  let ?g = "tgt @ replicate (Suc i - length tgt) (zero elemT)"
  let ?tk = "newChild tk KSlice (itoa i)"
  let ?sk = "newChild sk KSlice (itoa i)"
  obtain b md1 where s: "shouldSkipKey env a ?tk ?sk md = (b, md1)"
    by (cases "shouldSkipKey env a ?tk ?sk md")
  show ?thesis
  proof (cases b)
    case True
    with assms s show ?thesis
      by (auto simp: st ix sliceStep_def sliceRoundMsgs_def Let_def)
  next
    case False
    let ?r = "rec (CAssign a (?g ! i) True ?tk (childSource env x) ?sk) md1"
    from assms s False obtain v' err md2 where r: "?r = Returns (v', err, md2)"
      and st': "st' = (?g[i := v'], collect errors err, md2)"
      by (cases ?r) (auto simp: st ix sliceStep_def Let_def bindO_def)
    show ?thesis
      using s False r collect_append [of errors err]
      by (simp add: st ix st' sliceRoundMsgs_def Let_def childMsgs_Returns)
  qed
qed

lemma arrayStep_errors:
  assumes "arrayStep rec env a tk sk st ix = Returns st'"
  shows "fst (snd st') = fst (snd st) @ arrayRoundMsgs rec env a tk sk st ix"
proof -
  obtain arr errors md where st: "st = (arr, errors, md)" by (cases st)
  obtain i x where ix: "ix = (i, x)" by (cases ix)
  let ?tk = "newChild tk KArray (itoa i)"
  let ?sk = "newChild sk KArray (itoa i)"
  obtain b md1 where s: "shouldSkipKey env a ?tk ?sk md = (b, md1)"
    by (cases "shouldSkipKey env a ?tk ?sk md")
  from assms have inb: "\<not> i \<ge> length arr"
    by (auto simp: st ix arrayStep_def)
  show ?thesis
  proof (cases b)
    case True
    with assms s inb show ?thesis
      by (auto simp: st ix arrayStep_def arrayRoundMsgs_def Let_def)
  next
    case False
    let ?r = "rec (CAssign a (arr ! i) True ?tk (childSource env x) ?sk) md1"
    from assms s False inb obtain v' err md2 where r: "?r = Returns (v', err, md2)"
      and st': "st' = (arr[i := v'], collect errors err, md2)"
      by (cases ?r) (auto simp: st ix arrayStep_def Let_def bindO_def)
    show ?thesis
      using s False r collect_append [of errors err]
      by (simp add: st ix st' arrayRoundMsgs_def Let_def childMsgs_Returns)
  qed
qed


lemma mapFromMapStep_errors:
  assumes "mapFromMapStep rec env a keyT elemT tk sk ses st k = Returns st'"
  shows "fst (snd st') = fst (snd st) @ mapRoundMsgs rec env a keyT elemT tk sk ses st k"
proof -
  obtain entries errors md where st: "st = (entries, errors, md)" by (cases st)
  let ?tk = "newChild tk KMap (sprintv env k)"
  let ?sk = "newChild sk KMap (sprintv env k)"
  obtain b md1 where s: "shouldSkipKey env a ?tk ?sk md = (b, md1)"
    by (cases "shouldSkipKey env a ?tk ?sk md")
  show ?thesis
  proof (cases b)
    case True
    with assms s show ?thesis
      by (auto simp: st mapFromMapStep_def mapRoundMsgs_def Let_def)
  next
    case False
    let ?r1 = "rec (CAssign (weakAssigner env) (zero keyT) True [] (childSource env k) []) None"
    from assms s False obtain ck kerr kmd where r1: "?r1 = Returns (ck, kerr, kmd)"
      by (cases ?r1) (auto simp: st mapFromMapStep_def Let_def bindO_def)
    show ?thesis
    proof (cases kerr)
      case (Some e)
      with assms s False r1 show ?thesis
        by (auto simp: st mapFromMapStep_def mapRoundMsgs_def Let_def bindO_def collect_def
            appendErrors_append [of errors])
    next
      case None
      let ?c = "childSourceOf env (mapIndex k ses)"
      from assms s False r1 None obtain src where c: "?c = Returns src"
        by (cases ?c) (auto simp: st mapFromMapStep_def Let_def bindO_def)
      let ?r2 = "rec (CAssign a (zero elemT) True ?tk src ?sk) md1"
      from assms s False r1 None c obtain elem' err md2 where r2: "?r2 = Returns (elem', err, md2)"
        by (cases ?r2) (auto simp: st mapFromMapStep_def Let_def bindO_def)
      from assms s False r1 None c r2 show ?thesis
        by (cases err)
           (auto simp: st mapFromMapStep_def mapRoundMsgs_def Let_def bindO_def collect_def
              childMsgs_Returns appendErrors_append [of errors])
    qed
  qed
qed

lemma structFromMapStep_errors:
  assumes "structFromMapStep rec env a keyT tk sk ses st f = Returns st'"
  shows "fst (snd (snd (snd st'))) = fst (snd (snd (snd st)))
      @ structFromMapRoundMsgs rec env a keyT tk sk ses st f"
proof -
  obtain root mapKey unused errors md where st: "st = (root, mapKey, unused, errors, md)"
    by (cases st)
  let ?c = "convertFieldName rec env keyT mapKey (actualName f)"
  let ?tk = "newChild tk KStruct (displayName f)"
  let ?sk = "newChild sk KMap (actualName f)"
  from assms obtain mk kerr where c: "?c = Returns (mk, kerr)"
    by (cases ?c) (auto simp: st structFromMapStep_def bindO_def)
  show ?thesis
  proof (cases kerr)
    case (Some e)
    with assms c show ?thesis
      by (auto simp: st structFromMapStep_def structFromMapRoundMsgs_def bindO_def collect_def
          appendErrors_append [of errors])
  next
    case None
    show ?thesis
    proof (cases "mapIndex mk ses")
      case mn: None
      with assms c None show ?thesis
        by (auto simp: st structFromMapStep_def structFromMapRoundMsgs_def bindO_def Let_def)
    next
      case (Some v)
      obtain b md1 where s: "shouldSkipKey env a ?tk ?sk md = (b, md1)"
        by (cases "shouldSkipKey env a ?tk ?sk md")
      show ?thesis
      proof (cases "b \<or> \<not> fieldCanSet f")
        case True
        with assms c None Some s show ?thesis
          by (cases b)
             (auto simp: st structFromMapStep_def structFromMapRoundMsgs_def bindO_def Let_def)
      next
        case False
        let ?r = "assignField rec a root f ?tk (childSource env v) ?sk md1"
        from assms c None Some s False obtain root' err md2 where r: "?r = Returns (root', err, md2)"
          by (cases ?r) (auto simp: st structFromMapStep_def bindO_def Let_def)
        from assms c None Some s False r show ?thesis
          by (auto simp: st structFromMapStep_def structFromMapRoundMsgs_def bindO_def Let_def
              childMsgs_Returns collect_append [of errors])
      qed
    qed
  qed
qed

lemma structFromStructStep_errors:
  assumes "structFromStructStep rec env a tk sk st f = Returns st'"
  shows "fst (snd (snd st')) = fst (snd (snd st))
      @ structFromStructRoundMsgs rec env a tk sk st f"
proof -
  obtain root sfs errors md where st: "st = (root, sfs, errors, md)" by (cases st)
  let ?tk = "newChild tk KStruct (displayName f)"
  show ?thesis
  proof (cases "find (\<lambda>g. displayName g = displayName f) sfs")
    case None
    with assms show ?thesis
      by (auto simp: st structFromStructStep_def structFromStructRoundMsgs_def Let_def)
  next
    case (Some sf)
    let ?sk = "newChild sk KStruct (displayName sf)"
    obtain b md1 where s: "shouldSkipKey env a ?tk ?sk md = (b, md1)"
      by (cases "shouldSkipKey env a ?tk ?sk md")
    show ?thesis
    proof (cases "b \<or> \<not> fieldCanSet f")
      case True
      with assms Some s show ?thesis
        by (cases b)
           (auto simp: st structFromStructStep_def structFromStructRoundMsgs_def Let_def)
    next
      case False
      let ?r = "assignField rec a root f ?tk (childSource env (fieldVal sf)) ?sk md1"
      from assms Some s False obtain root' err md2 where r: "?r = Returns (root', err, md2)"
        by (cases ?r) (auto simp: st structFromStructStep_def bindO_def Let_def)
      from assms Some s False r show ?thesis
        by (auto simp: st structFromStructStep_def structFromStructRoundMsgs_def bindO_def Let_def
            childMsgs_Returns collect_append [of errors])
    qed
  qed
qed

lemma errorsResult_iff:
  "(errorsResult errors = None \<longleftrightarrow> errors = [])
   \<and> (errors \<noteq> [] \<longrightarrow> errorsResult errors = Some (Error errors))"
  by (simp add: errorsResult_def)

lemma assignSlice_loop:
  assumes kind: "kindOf sv = KSlice \<or> kindOf sv = KArray"
    and nn: "\<not> (kindOf sv = KSlice \<and> isNilVal sv)"
    and r: "assignSlice rec env a (VSlice t xs) tk (Some sv) sk md = Returns (tv', err, md')"
  shows "\<exists>elems errors.
           foldO (sliceStep rec env a t tk sk) (enumerate0 (seqElems sv))
             (sliceStart (VSlice t xs) (length (seqElems sv)), [], md)
             = Returns (elems, errors, md')
           \<and> tv' = VSlice t (Some elems) \<and> err = errorsResult errors"
proof -
  have notptr: "indirect (Some sv) = Some sv"
    using kind by (cases sv) (auto simp: indirect_def kindOf_def)
  have ks: "rkind (Some sv) = kindOf sv" by (simp add: rkind_def)
  have kt: "kindOf (VSlice t xs) = KSlice" by (simp add: kindOf_def)
  have et: "elemType (VSlice t xs) = t" by (simp add: elemType_def)
  let ?loop = "foldO (sliceStep rec env a t tk sk) (enumerate0 (seqElems sv))
             (sliceStart (VSlice t xs) (length (seqElems sv)), [], md)"
  have eq: "assignSlice rec env a (VSlice t xs) tk (Some sv) sk md
        = bindO ?loop (\<lambda>(elems, errors, md').
             Returns (VSlice t (Some elems), errorsResult errors, md'))"
    using kind nn
    by (auto simp: assignSlice_def Let_def notptr ks kt et isArraySlice_def sliceStart_def)
  from r [unfolded eq] show ?thesis
    by (cases ?loop) (auto simp: bindO_def)
qed

lemma assignStructFromMap_loop:
  assumes key: "kindOfType (keyType sv) = KString \<or> kindOfType (keyType sv) = KInterface"
    and r: "assignStructFromMap rec env a tv cs tk sv sk md = Returns (tv', err, md')"
  shows "\<exists>targetFields root mapKey unused errors md1.
           flattenStruct env a tv cs = Returns (targetFields, root)
           \<and> foldO (structFromMapStep rec env a (keyType sv) tk sk (mapEntries sv))
                 (rangeFields env targetFields)
                 (root, zero (keyType sv),
                  remdups (map (valueString env) (mapKeys env (mapEntries sv))), [], md)
               = Returns (tv', mapKey, unused, errors, md1)
           \<and> err = errorsResult errors"
proof -
  let ?fl = "flattenStruct env a tv cs"
  from r key obtain targetFields root where fl: "?fl = Returns (targetFields, root)"
    by (cases ?fl) (auto simp: assignStructFromMap_def Let_def bindO_def)
  let ?loop = "foldO (structFromMapStep rec env a (keyType sv) tk sk (mapEntries sv))
                 (rangeFields env targetFields)
                 (root, zero (keyType sv),
                  remdups (map (valueString env) (mapKeys env (mapEntries sv))), [], md)"
  from r key fl obtain st' where l: "?loop = Returns st'"
    by (cases ?loop) (auto simp: assignStructFromMap_def Let_def bindO_def)
  obtain root' mapKey unused errors md1 where st': "st' = (root', mapKey, unused, errors, md1)"
    by (cases st')
  from r key fl l st' have "tv' = root' \<and> err = errorsResult errors"
    by (auto simp: assignStructFromMap_def Let_def bindO_def)
  with fl l st' show ?thesis by blast
qed

lemma foldR_stops:
  "f s x = Returns (Inl res) \<Longrightarrow> foldR f (x # xs) s = Returns (Inl res)"
  by (simp add: bindO_def)

lemma mapFromSliceStep_fails:
  "rec (CAssign a tv True tk (childSource env x) (newChild sk KSlice (itoa i))) md
     = Returns (tv', Some e, md')
   \<Longrightarrow> mapFromSliceStep rec env a tk sk (tv, md) (i, x) = Returns (Inl (tv', Some e, md'))"
  by (simp add: mapFromSliceStep_def bindO_def)

lemma mapFromStructStep_fails:
  "\<not> assignableTo (typeOf (fieldVal f)) elemT
   \<Longrightarrow> mapFromStructStep rec env a keyT elemT tk sk (entries, md) f
       = Returns (Inl (entries, ErrorMsg MsgMapValueType, md))"
  by (simp add: mapFromStructStep_def)

lemma loop_accumulates:
  assumes step: "\<And>s x s'. f s x = Returns s' \<Longrightarrow> errs s' = errs s @ msgs s x"
  shows "foldO f xs s = Returns t \<longrightarrow>
           map (\<lambda>(s1, x, s2). x) (rounds f xs s) = xs
           \<and> errs t = errs s @ concat (map (\<lambda>(s1, x, s2). msgs s1 x) (rounds f xs s))"
  using rounds_complete [of f xs s t] rounds_errors [of f errs msgs xs s t, OF step]
  by blast

lemma mapEntries_made:
  "mapEntries (if isNilVal targetVal then VMap kt et (Some []) else targetVal)
   = mapEntries targetVal"
  by (cases targetVal) (auto simp: mapEntries_def isNilVal_def split: option.splits)

lemma assignMapFromMap_loop:
  assumes nn: "\<not> isNilVal sourceVal" and ne: "mapEntries sourceVal \<noteq> []"
    and r: "assignMapFromMap rec env a targetVal tk sourceVal sk md = Returns (tv', err, md')"
  shows "\<exists>entries' errors.
           foldO (mapFromMapStep rec env a (keyType targetVal) (elemType targetVal) tk sk
                    (mapEntries sourceVal))
             (mapKeys env (mapEntries sourceVal)) (mapEntries targetVal, [], md)
             = Returns (entries', errors, md')
           \<and> tv' = VMap (keyType targetVal) (elemType targetVal) (Some entries')
           \<and> err = errorsResult errors"
proof -
  let ?loop = "foldO (mapFromMapStep rec env a (keyType targetVal) (elemType targetVal) tk sk
                    (mapEntries sourceVal))
             (mapKeys env (mapEntries sourceVal)) (mapEntries targetVal, [], md)"
  have eq: "assignMapFromMap rec env a targetVal tk sourceVal sk md
        = bindO ?loop (\<lambda>(entries, errors, md').
             Returns (VMap (keyType targetVal) (elemType targetVal) (Some entries),
                      errorsResult errors, md'))"
    using nn ne by (simp add: assignMapFromMap_def Let_def mapEntries_made)
  from r [unfolded eq] show ?thesis
    by (cases ?loop) (auto simp: bindO_def)
qed

lemma mapFromMapStep_entries:
  assumes "mapFromMapStep rec env a keyT elemT tk sk ses st k = Returns st'"
  shows "fst st' = (case mapRoundWrite rec env a keyT elemT tk sk ses st k of
                      Some (ck, e) \<Rightarrow> setMapIndex ck e (fst st)
                    | None \<Rightarrow> fst st)"
proof -
  obtain entries errors md where st: "st = (entries, errors, md)" by (cases st)
  let ?tk = "newChild tk KMap (sprintv env k)"
  let ?sk = "newChild sk KMap (sprintv env k)"
  obtain b md1 where s: "shouldSkipKey env a ?tk ?sk md = (b, md1)"
    by (cases "shouldSkipKey env a ?tk ?sk md")
  show ?thesis
  proof (cases b)
    case True
    with assms s show ?thesis
      by (auto simp: st mapFromMapStep_def mapRoundWrite_def Let_def)
  next
    case False
    let ?r1 = "rec (CAssign (weakAssigner env) (zero keyT) True [] (childSource env k) []) None"
    from assms s False obtain ck kerr kmd where r1: "?r1 = Returns (ck, kerr, kmd)"
      by (cases ?r1) (auto simp: st mapFromMapStep_def Let_def bindO_def)
    show ?thesis
    proof (cases kerr)
      case (Some e)
      with assms s False r1 show ?thesis
        by (auto simp: st mapFromMapStep_def mapRoundWrite_def Let_def bindO_def)
    next
      case None
      let ?c = "childSourceOf env (mapIndex k ses)"
      from assms s False r1 None obtain src where c: "?c = Returns src"
        by (cases ?c) (auto simp: st mapFromMapStep_def Let_def bindO_def)
      let ?r2 = "rec (CAssign a (zero elemT) True ?tk src ?sk) md1"
      from assms s False r1 None c obtain elem' err md2 where r2: "?r2 = Returns (elem', err, md2)"
        by (cases ?r2) (auto simp: st mapFromMapStep_def Let_def bindO_def)
      from assms s False r1 None c r2 show ?thesis
        by (cases err) (auto simp: st mapFromMapStep_def mapRoundWrite_def Let_def bindO_def)
    qed
  qed
qed

text \<open>
  C5 as stated fails for a map target fed from a sequence (weak typing): the first element
  whose assignment fails ends \<^verbatim>\<open>assignMapFromSlice\<close>, and the remaining elements are not
  visited. Here the key \<^verbatim>\<open>b\<close> of the second element would convert, and is not written.
\<close>

theorem map_from_slice_aborts_counterexample:
  "run 6 (sampleEnv V2) (CAssign (weakAssigner (sampleEnv V2)) (VMap TString (TInt KInt) None)
      True ''M''
      (Some (VSlice TInterface (Some
         [VInterface (Some (VMap TString TInterface
            (Some [(VString ''a'', VInterface (Some (VMap TString TInterface (Some []))))]))),
          VInterface (Some (VMap TString TInterface
            (Some [(VString ''b'', VInterface (Some (VInt KInt 1)))])))]))) ''m'') None
   = Returns (VMap TString (TInt KInt) (Some []), Some (Error [MsgUnconvertible ''M[a]'']), None)"
  by code_simp

lemma rounds_chain:
  "foldO f xs s = Returns t \<Longrightarrow>
     map (\<lambda>(s1, x, s2). s1) (rounds f xs s) @ [t]
       = s # map (\<lambda>(s1, x, s2). s2) (rounds f xs s)"
proof (induction xs arbitrary: s)
  case Nil
  then show ?case by simp
next
  case (Cons x xs)
  then obtain s' where s: "f s x = Returns s'" and r: "foldO f xs s' = Returns t"
    by (auto simp: bindO_def split: outcome.splits)
  from Cons.IH [OF r] s show ?case by simp
qed

lemma zip_upt_Cons:
  "zip [k..<k + length (x # xs)] (x # xs) = (k, x) # zip [Suc k..<Suc k + length xs] xs"
proof -
  have "[k..<k + length (x # xs)] = k # [Suc k..<Suc k + length xs]"
    by (subst upt_rec) simp
  then show ?thesis by simp
qed

lemma sliceStep_round:
  assumes "shouldSkipKey env a (newChild tk KSlice (itoa i)) (newChild sk KSlice (itoa i)) md
             = (False, md1)"
    and "rec (CAssign a ((tgt @ replicate (Suc i - length tgt) (zero elemT)) ! i) True
                (newChild tk KSlice (itoa i)) (childSource env x) (newChild sk KSlice (itoa i)))
           md1 = Returns (v', e, mdc)"
  shows "sliceStep rec env a elemT tk sk (tgt, errors, md) (i, x)
         = Returns ((tgt @ replicate (Suc i - length tgt) (zero elemT))[i := v'],
                    collect errors e, mdc)"
  using assms by (simp add: sliceStep_def Let_def bindO_def)

lemma sliceStep_keeps:
  assumes "sliceStep rec env a t tk sk (tgt, errs, md) (i, x) = Returns (tgt', errs', md')"
  shows "\<forall>j. j \<noteq> i \<and> j < length tgt \<longrightarrow> tgt' ! j = tgt ! j"
  using assms
  by (auto simp: sliceStep_def bindO_def Let_def nth_append
      split: prod.splits bool.splits outcome.splits)

lemma sliceLoop_keeps:
  "foldO (sliceStep rec env a t tk sk) (zip [k..<k + length xs] xs) s = Returns s'
   \<Longrightarrow> length (fst s) \<le> length (fst s')
       \<and> (\<forall>j. j < k \<and> j < length (fst s) \<longrightarrow> fst s' ! j = fst s ! j)"
proof (induction xs arbitrary: k s)
  case Nil
  then show ?case by simp
next
  case (Cons x xs)
  obtain tgt errs md where st: "s = (tgt, errs, md)" by (cases s)
  from Cons.prems obtain s1 where
    s: "sliceStep rec env a t tk sk (tgt, errs, md) (k, x) = Returns s1"
    and r: "foldO (sliceStep rec env a t tk sk) (zip [Suc k..<Suc k + length xs] xs) s1
              = Returns s'"
    unfolding zip_upt_Cons st by (auto simp: bindO_def split: outcome.splits)
  obtain tgt1 errs1 md1 where s1: "s1 = (tgt1, errs1, md1)" by (cases s1)
  from sliceStep_length [OF s [unfolded s1]] have l1: "length tgt1 = max (length tgt) (Suc k)" .
  from sliceStep_keeps [OF s [unfolded s1]]
  have k1: "\<forall>j. j \<noteq> k \<and> j < length tgt \<longrightarrow> tgt1 ! j = tgt ! j" .
  from Cons.IH [OF r] s1
  have ih: "length tgt1 \<le> length (fst s')"
    "\<forall>j. j < Suc k \<and> j < length tgt1 \<longrightarrow> fst s' ! j = tgt1 ! j" by auto
  show ?case using l1 k1 ih by (auto simp: st)
qed

lemma sliceRounds_kept:
  "foldO (sliceStep rec env a t tk sk) (zip [k..<k + length xs] xs) s = Returns s'
   \<Longrightarrow> \<forall>(s1, ix, s2) \<in> set (rounds (sliceStep rec env a t tk sk) (zip [k..<k + length xs] xs) s).
         fst ix < length (fst s') \<and> fst s' ! fst ix = fst s2 ! fst ix"
proof (induction xs arbitrary: k s)
  case Nil
  then show ?case by simp
next
  case (Cons x xs)
  obtain tgt errs md where st: "s = (tgt, errs, md)" by (cases s)
  from Cons.prems obtain s1 where
    s: "sliceStep rec env a t tk sk (tgt, errs, md) (k, x) = Returns s1"
    and r: "foldO (sliceStep rec env a t tk sk) (zip [Suc k..<Suc k + length xs] xs) s1
              = Returns s'"
    unfolding zip_upt_Cons st by (auto simp: bindO_def split: outcome.splits)
  obtain tgt1 errs1 md1 where s1: "s1 = (tgt1, errs1, md1)" by (cases s1)
  from sliceStep_length [OF s [unfolded s1]] have l1: "length tgt1 = max (length tgt) (Suc k)" .
  from sliceLoop_keeps [OF r] s1
  have ks: "length tgt1 \<le> length (fst s')"
    "\<forall>j. j < Suc k \<and> j < length tgt1 \<longrightarrow> fst s' ! j = tgt1 ! j" by auto
  have hd: "k < length (fst s') \<and> fst s' ! k = tgt1 ! k" using l1 ks by auto
  have rs: "rounds (sliceStep rec env a t tk sk) (zip [k..<k + length (x # xs)] (x # xs)) s
      = (s, (k, x), s1) # rounds (sliceStep rec env a t tk sk)
                            (zip [Suc k..<Suc k + length xs] xs) s1"
    unfolding zip_upt_Cons using s by (simp add: st)
  show ?case unfolding rs using hd Cons.IH [OF r] by (simp add: s1)
qed

lemma arrayStep_round:
  assumes "i < length arr"
    and "shouldSkipKey env a (newChild tk KArray (itoa i)) (newChild sk KArray (itoa i)) md
             = (False, md1)"
    and "rec (CAssign a (arr ! i) True (newChild tk KArray (itoa i)) (childSource env x)
                (newChild sk KArray (itoa i))) md1 = Returns (v', e, mdc)"
  shows "arrayStep rec env a tk sk (arr, errors, md) (i, x)
         = Returns (arr[i := v'], collect errors e, mdc)"
  using assms by (simp add: arrayStep_def Let_def bindO_def)

lemma arrayStep_keeps:
  assumes "arrayStep rec env a tk sk (arr, errs, md) (i, x) = Returns (arr', errs', md')"
  shows "length arr' = length arr \<and> i < length arr
         \<and> (\<forall>j. j \<noteq> i \<longrightarrow> arr' ! j = arr ! j)"
  using assms
  by (auto simp: arrayStep_def bindO_def Let_def
      split: prod.splits bool.splits outcome.splits if_splits)

lemma arrayLoop_keeps:
  "foldO (arrayStep rec env a tk sk) (zip [k..<k + length xs] xs) s = Returns s'
   \<Longrightarrow> length (fst s') = length (fst s)
       \<and> (\<forall>j. j < k \<longrightarrow> fst s' ! j = fst s ! j)"
proof (induction xs arbitrary: k s)
  case Nil
  then show ?case by simp
next
  case (Cons x xs)
  obtain arr errs md where st: "s = (arr, errs, md)" by (cases s)
  from Cons.prems obtain s1 where
    s: "arrayStep rec env a tk sk (arr, errs, md) (k, x) = Returns s1"
    and r: "foldO (arrayStep rec env a tk sk) (zip [Suc k..<Suc k + length xs] xs) s1
              = Returns s'"
    unfolding zip_upt_Cons st by (auto simp: bindO_def split: outcome.splits)
  obtain arr1 errs1 md1 where s1: "s1 = (arr1, errs1, md1)" by (cases s1)
  from arrayStep_keeps [OF s [unfolded s1]]
  have k1: "length arr1 = length arr" "\<forall>j. j \<noteq> k \<longrightarrow> arr1 ! j = arr ! j" by auto
  from Cons.IH [OF r] s1
  have ih: "length (fst s') = length arr1" "\<forall>j. j < Suc k \<longrightarrow> fst s' ! j = arr1 ! j" by auto
  show ?case using k1 ih by (auto simp: st)
qed

lemma arrayRounds_kept:
  "foldO (arrayStep rec env a tk sk) (zip [k..<k + length xs] xs) s = Returns s'
   \<Longrightarrow> \<forall>(s1, ix, s2) \<in> set (rounds (arrayStep rec env a tk sk) (zip [k..<k + length xs] xs) s).
         fst ix < length (fst s') \<and> fst s' ! fst ix = fst s2 ! fst ix"
proof (induction xs arbitrary: k s)
  case Nil
  then show ?case by simp
next
  case (Cons x xs)
  obtain arr errs md where st: "s = (arr, errs, md)" by (cases s)
  from Cons.prems obtain s1 where
    s: "arrayStep rec env a tk sk (arr, errs, md) (k, x) = Returns s1"
    and r: "foldO (arrayStep rec env a tk sk) (zip [Suc k..<Suc k + length xs] xs) s1
              = Returns s'"
    unfolding zip_upt_Cons st by (auto simp: bindO_def split: outcome.splits)
  obtain arr1 errs1 md1 where s1: "s1 = (arr1, errs1, md1)" by (cases s1)
  from arrayStep_keeps [OF s [unfolded s1]]
  have k1: "length arr1 = length arr" "k < length arr" by auto
  from arrayLoop_keeps [OF r] s1
  have ks: "length (fst s') = length arr1" "\<forall>j. j < Suc k \<longrightarrow> fst s' ! j = arr1 ! j" by auto
  have hd: "k < length (fst s') \<and> fst s' ! k = arr1 ! k" using k1 ks by auto
  have rs: "rounds (arrayStep rec env a tk sk) (zip [k..<k + length (x # xs)] (x # xs)) s
      = (s, (k, x), s1) # rounds (arrayStep rec env a tk sk)
                            (zip [Suc k..<Suc k + length xs] xs) s1"
    unfolding zip_upt_Cons using s by (simp add: st)
  show ?case unfolding rs using hd Cons.IH [OF r] by (simp add: s1)
qed

lemma enumerate0_upt: "enumerate0 xs = zip [0..<0 + length xs] xs"
  by (simp add: enumerate0_def)

lemma assignArray_loop:
  assumes kind: "sv = VSlice et ys \<or> sv = VArray et zs"
    and len: "length (seqElems sv) \<le> length cur"
    and r: "assignArray rec env a (VArray t cur) tk (Some sv) sk md = Returns (tv', err, md')"
  shows "\<exists>elems errors.
           foldO (arrayStep rec env a tk sk) (enumerate0 (seqElems sv)) (cur, [], md)
             = Returns (elems, errors, md')
           \<and> tv' = VArray t (case variant env of
                               V1 \<Rightarrow> elems
                             | V2 \<Rightarrow> take (length (seqElems sv)) elems
                                     @ replicate (length cur - length (seqElems sv)) (zero t))
           \<and> err = errorsResult errors"
proof -
  have notptr: "indirect (Some sv) = Some sv"
    using kind by (auto simp: indirect_def)
  have ks: "rkind (Some sv) = KSlice \<or> rkind (Some sv) = KArray"
    using kind by (auto simp: rkind_def kindOf_def)
  have ix: "indexable (Some sv) = Returns (seqElems sv)"
    using kind by (auto simp: indexable_def seqElems_def)
  have z: "zero (typeOf (VArray t cur)) = VArray t (replicate (length cur) (zero t))" by simp
  have start: "(if VArray t cur = zero (typeOf (VArray t cur))
                then replicate (length cur) (zero t) else cur) = cur"
    by (simp only: z) auto
  let ?loop = "foldO (arrayStep rec env a tk sk) (enumerate0 (seqElems sv)) (cur, [], md)"
  have eq: "assignArray rec env a (VArray t cur) tk (Some sv) sk md
        = bindO ?loop (\<lambda>(elems, errors, md').
             Returns (VArray t (case variant env of
                                  V1 \<Rightarrow> elems
                                | V2 \<Rightarrow> take (length (seqElems sv)) elems
                                        @ replicate (length cur - length (seqElems sv)) (zero t)),
                      errorsResult errors, md'))"
  proof (cases "VArray t cur = zero (typeOf (VArray t cur))")
    case True
    then have c: "cur = replicate (length cur) (zero t)" by (simp only: z) simp
    have nl: "\<not> length cur < length (seqElems sv)" using len by simp
    show ?thesis
      unfolding assignArray_def val.case Let_def notptr ix
      using True ks nl c by (auto simp: bindO_def)
  next
    case False
    show ?thesis
      unfolding assignArray_def val.case Let_def notptr ix
      using False by (simp add: bindO_def)
  qed
  from r [unfolded eq] show ?thesis
    by (cases ?loop) (auto simp: bindO_def)
qed

lemma assignStructFromStruct_loop:
  assumes r: "assignStructFromStruct rec env a tv cs tk sv sk md = Returns (tv', err, md')"
  shows "\<exists>targetFields root sourceFields flattened remaining errors md1.
           flattenStruct env a tv cs = Returns (targetFields, root)
           \<and> flattenStruct env a sv False = Returns (sourceFields, flattened)
           \<and> foldO (structFromStructStep rec env a tk sk) (rangeFields env targetFields)
                 (root, sourceFields, [], md)
               = Returns (tv', remaining, errors, md1)
           \<and> err = errorsResult errors"
proof -
  let ?fl = "flattenStruct env a tv cs"
  from r obtain targetFields root where fl: "?fl = Returns (targetFields, root)"
    by (cases ?fl) (auto simp: assignStructFromStruct_def bindO_def)
  let ?fs = "flattenStruct env a sv False"
  from r fl obtain sourceFields flattened where fs: "?fs = Returns (sourceFields, flattened)"
    by (cases ?fs) (auto simp: assignStructFromStruct_def bindO_def)
  let ?loop = "foldO (structFromStructStep rec env a tk sk) (rangeFields env targetFields)
                 (root, sourceFields, [], md)"
  from r fl fs obtain st' where l: "?loop = Returns st'"
    by (cases ?loop) (auto simp: assignStructFromStruct_def bindO_def)
  obtain root' remaining errors md1 where st': "st' = (root', remaining, errors, md1)"
    by (cases st')
  from r fl fs l st' have "tv' = root' \<and> err = errorsResult errors"
    by (auto simp: assignStructFromStruct_def bindO_def)
  with fl fs l st' show ?thesis by blast
qed

lemma collect_cases:
  "collect errors None = errors" "collect errors (Some e) = appendErrors errors e"
  by (simp_all add: collect_def)

lemma mapFromMapStep_round:
  assumes "shouldSkipKey env a (newChild tk KMap (sprintv env k))
             (newChild sk KMap (sprintv env k)) md = (False, md1)"
    and "rec (CAssign (weakAssigner env) (zero keyT) True [] (childSource env k) []) None
           = Returns (ck, None, kmd)"
    and "childSourceOf env (mapIndex k ses) = Returns src"
    and "rec (CAssign a (zero elemT) True (newChild tk KMap (sprintv env k)) src
                (newChild sk KMap (sprintv env k))) md1 = Returns (e, cerr, mdc)"
  shows "mapFromMapStep rec env a keyT elemT tk sk ses (entries, errors, md) k
         = Returns (if cerr = None then setMapIndex ck e entries else entries,
                    collect errors cerr, mdc)"
  using assms
  by (cases cerr) (simp_all add: mapFromMapStep_def Let_def bindO_def collect_cases)

lemma mapFromMapStep_key_fails:
  assumes "shouldSkipKey env a (newChild tk KMap (sprintv env k))
             (newChild sk KMap (sprintv env k)) md = (False, md1)"
    and "rec (CAssign (weakAssigner env) (zero keyT) True [] (childSource env k) []) None
           = Returns (ck, Some ke, kmd)"
  shows "mapFromMapStep rec env a keyT elemT tk sk ses (entries, errors, md) k
         = Returns (entries, collect errors (Some ke), md1)"
  using assms by (simp add: mapFromMapStep_def Let_def bindO_def collect_cases)

lemma assignField_round:
  assumes "fieldPath f = Some p" and "getPath p root = Some cur"
    and "rec (CAssign a cur True tfk src sfk) md = Returns (v', e, md')"
  shows "assignField rec a root f tfk src sfk md
         = Returns (modPath p (\<lambda>old. v') root, e, md')"
  using assms by (simp add: assignField_def bindO_def)

lemma structFromMapStep_round:
  assumes "convertFieldName rec env keyT mapKey (actualName f) = Returns (mk, None)"
    and "mapIndex mk ses = Some value"
    and "shouldSkipKey env a (newChild tk KStruct (displayName f))
           (newChild sk KMap (actualName f)) md = (False, md1)"
    and "fieldCanSet f"
    and "assignField rec a root f (newChild tk KStruct (displayName f)) (childSource env value)
           (newChild sk KMap (actualName f)) md1 = Returns (root', cerr, mdc)"
  shows "structFromMapStep rec env a keyT tk sk ses (root, mapKey, unused, errors, md) f
         = Returns (root', mk, removeAll (actualName f) unused, collect errors cerr, mdc)"
  using assms by (simp add: structFromMapStep_def Let_def bindO_def)

lemma structFromStructStep_round:
  assumes "find (\<lambda>g. displayName g = displayName f) sfs = Some sf"
    and "shouldSkipKey env a (newChild tk KStruct (displayName f))
           (newChild sk KStruct (displayName sf)) md = (False, md1)"
    and "fieldCanSet f"
    and "assignField rec a root f (newChild tk KStruct (displayName f))
           (childSource env (fieldVal sf)) (newChild sk KStruct (displayName sf)) md1
         = Returns (root', cerr, mdc)"
  shows "structFromStructStep rec env a tk sk (root, sfs, errors, md) f
         = Returns (root', filter (\<lambda>g. displayName g \<noteq> displayName f) sfs,
                    collect errors cerr, mdc)"
  using assms by (simp add: structFromStructStep_def Let_def bindO_def)

lemma mapIndex_append:
  "mapIndex k (xs @ ys) = (case mapIndex k xs of Some v \<Rightarrow> Some v | None \<Rightarrow> mapIndex k ys)"
  by (induction xs) auto

lemma mapIndex_None_iff:
  "mapIndex k xs = None \<longleftrightarrow> (\<forall>(k', v') \<in> set xs. \<not> keyEq k' k)"
proof (induction xs)
  case Nil
  then show ?case by simp
next
  case (Cons x xs)
  obtain k0 v0 where x: "x = (k0, v0)" by (cases x)
  show ?case using Cons.IH by (cases "keyEq k0 k") (simp_all add: x)
qed

lemma mapIndex_Some:
  "mapIndex k xs = Some v \<Longrightarrow> \<exists>k'. (k', v) \<in> set xs \<and> keyEq k' k"
  by (induction xs) (auto split: if_splits)

lemma rounds_entries:
  assumes step: "\<And>s x s'. f s x = Returns s' \<Longrightarrow>
                   fst s' = (case w s x of Some (ck, e) \<Rightarrow> setMapIndex ck e (fst s) | None \<Rightarrow> fst s)"
  shows "foldO f xs s = Returns t \<Longrightarrow>
     mapIndex k (fst t)
       = mapIndex k (rev (List.map_filter (\<lambda>(s1, x, s2). w s1 x) (rounds f xs s)) @ fst s)"
proof (induction xs arbitrary: s)
  case Nil
  then show ?case by (simp add: List.map_filter_simps)
next
  case (Cons x xs)
  then obtain s' where s: "f s x = Returns s'" and r: "foldO f xs s' = Returns t"
    by (auto simp: bindO_def split: outcome.splits)
  let ?ws = "List.map_filter (\<lambda>(s1, x, s2). w s1 x) (rounds f xs s')"
  have ih: "mapIndex k (fst t) = mapIndex k (rev ?ws @ fst s')" by (rule Cons.IH [OF r])
  show ?case
  proof (cases "w s x")
    case None
    with step [OF s] have "fst s' = fst s" by simp
    with ih s None show ?thesis by (simp add: List.map_filter_simps)
  next
    case (Some p)
    obtain ck e where p: "p = (ck, e)" by (cases p)
    from step [OF s] Some p have fs: "fst s' = setMapIndex ck e (fst s)" by simp
    have h: "mapIndex k (setMapIndex ck e (fst s)) = mapIndex k ((ck, e) # fst s)"
      by (simp add: mapIndex_setMapIndex)
    have "mapIndex k (rev ?ws @ fst s') = mapIndex k (rev ?ws @ (ck, e) # fst s)"
      by (simp only: mapIndex_append fs h)
    with ih s Some p show ?thesis by (simp add: List.map_filter_simps)
  qed
qed

lemma writes_retain:
  "\<forall>(k', v') \<in> set ws. \<not> keyEq k' k \<Longrightarrow> mapIndex k (rev ws @ init) = mapIndex k init"
proof -
  assume "\<forall>(k', v') \<in> set ws. \<not> keyEq k' k"
  then have "mapIndex k (rev ws) = None" by (simp add: mapIndex_None_iff)
  then show ?thesis by (simp add: mapIndex_append)
qed

lemma writes_present:
  assumes "(k', v') \<in> set ws" and "keyEq k' k"
  shows "\<exists>k'' v''. (k'', v'') \<in> set ws \<and> keyEq k'' k \<and> mapIndex k (rev ws @ init) = Some v''"
proof -
  from assms have "mapIndex k (rev ws) \<noteq> None" by (auto simp: mapIndex_None_iff)
  then obtain v'' where v: "mapIndex k (rev ws) = Some v''" by auto
  from mapIndex_Some [OF v] obtain k'' where "(k'', v'') \<in> set ws" "keyEq k'' k" by auto
  with v show ?thesis by (auto simp: mapIndex_append)
qed

lemma writes_last:
  assumes "i < length ws" and "keyEq (fst (ws ! i)) k"
    and "\<forall>j. i < j \<and> j < length ws \<longrightarrow> \<not> keyEq (fst (ws ! j)) k"
  shows "mapIndex k (rev ws @ init) = Some (snd (ws ! i))"
proof -
  have ws: "ws = take i ws @ ws ! i # drop (Suc i) ws"
    using assms(1) by (simp add: id_take_nth_drop)
  have "\<forall>(k', v') \<in> set (drop (Suc i) ws). \<not> keyEq k' k"
  proof (clarify)
    fix k' v' assume m: "(k', v') \<in> set (drop (Suc i) ws)" and e: "keyEq k' k"
    from m obtain j where j: "j < length (drop (Suc i) ws)" "drop (Suc i) ws ! j = (k', v')"
      by (auto simp: in_set_conv_nth)
    then have "ws ! (Suc i + j) = (k', v')" "Suc i + j < length ws" by auto
    with assms(3) e show False by (metis fst_conv less_add_Suc1 add_Suc)
  qed
  then have n: "mapIndex k (rev (drop (Suc i) ws)) = None" by (simp add: mapIndex_None_iff)
  have "rev ws = rev (drop (Suc i) ws) @ ws ! i # rev (take i ws)"
    by (subst ws) simp
  then have "mapIndex k (rev ws @ init)
      = mapIndex k (rev (drop (Suc i) ws) @ (ws ! i # rev (take i ws) @ init))" by simp
  also have "\<dots> = mapIndex k (ws ! i # rev (take i ws) @ init)"
    using n by (simp only: mapIndex_append) simp
  also have "\<dots> = Some (snd (ws ! i))"
    using assms(2) by (cases "ws ! i") simp
  finally show ?thesis .
qed

end
